theory Spec2Isabelle
  imports Main
begin

section \<open>Farm Game: the controller of farm\_game.py over the simulation model\<close>

text \<open>
  The repository's \<^verbatim>\<open>farm_game.py\<close> holds the views (\<^verbatim>\<open>InfoBar\<close>, \<^verbatim>\<open>FarmView\<close>,
  \<^verbatim>\<open>ItemView\<close>) and the controller \<^verbatim>\<open>FarmGame\<close>. The simulation model
  (\<^verbatim>\<open>model.py\<close>: \<^verbatim>\<open>FarmModel\<close>, \<^verbatim>\<open>Player\<close>, the plants) and the constants
  (\<^verbatim>\<open>constants.py\<close>) are imported by it and are not part of the source at hand. The
  constants are fields of a configuration record that every function takes as a
  parameter; the model's operations follow the specification's contracts and are marked
  as such.
\<close>

subsection \<open>Python values and errors\<close>

text \<open>
  The exceptions the controller can raise. A \<^verbatim>\<open>KeyError\<close> carries the dictionary that
  was indexed (a tag of this development, so that a failed price lookup can be told from a
  failed lookup in \<^verbatim>\<open>item_dict\<close>) and the key.
\<close>

datatype table = BUY_PRICES_table | SELL_PRICES_table | item_dict_table

datatype py_error = IndexError | UnboundLocalError | KeyError table string

text \<open>\<^verbatim>\<open>str(n)\<close> for an integer: decimal digits, a minus sign for a negative one.\<close>

fun str_nat :: "nat \<Rightarrow> string" where
  "str_nat n =
     (if n < 10 then [char_of (48 + n)]
      else str_nat (n div 10) @ [char_of (48 + n mod 10)])"

definition str_int :: "int \<Rightarrow> string" where
  "str_int i = (if i < 0 then CHR ''-'' # str_nat (nat (- i)) else str_nat (nat i))"

subsection \<open>Configuration: the constants of constants.py\<close>

datatype variant = Potato | Kale | Berry

text \<open>
  The per-variant table of the specification (section 3): the last stage, the item and
  quantity a harvest yields, and for a multi-harvest variant the stage it regrows to
  (\<open>None\<close> for a single-harvest variant).
\<close>

record variant_info =
  max_stage :: nat
  yield_item :: string
  yield_qty :: nat
  regrow_stage :: "nat option"

record config =
  SOIL :: char
  SEEDS :: "string list"
  ITEMS :: "string list"
  BUY_PRICES :: "string \<rightharpoonup> int"
  SELL_PRICES :: "string \<rightharpoonup> int"
  INVENTORY_COLOUR :: string
  INVENTORY_SELECTED_COLOUR :: string
  INVENTORY_EMPTY_COLOUR :: string
  max_energy :: nat
  till_cost :: nat
  untill_cost :: nat
  variant_table :: "variant \<Rightarrow> variant_info"

subsection \<open>ItemView\<close>

text \<open>
  The widget state of one \<^verbatim>\<open>ItemView\<close>: the item it shows, the background of the frame
  and of the label, the label's text, and whether \<^verbatim>\<open>__init__\<close> created a Buy button.
\<close>

record item_view =
  item_name :: string
  frame_bg :: string
  label_bg :: string
  label_text :: string
  has_buy_button :: bool

text \<open>
  Python mutates objects in place, so what a raise leaves behind is still there: a
  result carries the state in both cases.
\<close>

datatype 'a outcome = Returns 'a | Raises py_error 'a

fun state_of :: "'a outcome \<Rightarrow> 'a" where
  "state_of (Returns s) = s"
| "state_of (Raises e s) = s"

fun raised :: "'a outcome \<Rightarrow> py_error option" where
  "raised (Returns s) = None"
| "raised (Raises e s) = Some e"

text \<open>Sequencing: the next statement runs only when the previous one returned.\<close>

fun and_then :: "'a outcome \<Rightarrow> ('a \<Rightarrow> 'a outcome) \<Rightarrow> 'a outcome" where
  "and_then (Returns s) f = f s"
| "and_then (Raises e s) f = Raises e s"

text \<open>
  The label text both \<^verbatim>\<open>__init__\<close> and \<^verbatim>\<open>update\<close> build:
  \<^verbatim>\<open>f"{name}: {amount}\nSell price: ${SELL_PRICES[name]}\n"\<close>, then the buy price or
  \<^verbatim>\<open>N/A\<close>. The lookup in \<^verbatim>\<open>SELL_PRICES\<close> is unguarded, the one in \<^verbatim>\<open>BUY_PRICES\<close> is
  guarded by \<^verbatim>\<open>in BUY_PRICES\<close>.
\<close>

definition item_label_text :: "config \<Rightarrow> string \<Rightarrow> int \<Rightarrow> py_error + string" where
  "item_label_text cfg name amount =
     (case SELL_PRICES cfg name of
        None \<Rightarrow> Inl (KeyError SELL_PRICES_table name)
      | Some sp \<Rightarrow>
          Inr (name @ '': '' @ str_int amount @ [CHR 0x0A] @ ''Sell price: $'' @ str_int sp
               @ [CHR 0x0A]
               @ (case BUY_PRICES cfg name of
                    Some bp \<Rightarrow> ''Buy price: $'' @ str_int bp
                  | None \<Rightarrow> ''Buy price: $N/A'')))"

text \<open>
  \<^verbatim>\<open>ItemView.__init__(master, item_name, amount, ...)\<close>: frame and label start with the
  empty colour; the Buy button exists only when \<^verbatim>\<open>item_name in BUY_PRICES\<close>. The label text
  is built first, so a missing sell price raises before any widget exists.
\<close>

definition ItemView_init :: "config \<Rightarrow> string \<Rightarrow> int \<Rightarrow> py_error + item_view" where
  "ItemView_init cfg name amount =
     (case item_label_text cfg name amount of
        Inl e \<Rightarrow> Inl e
      | Inr txt \<Rightarrow>
          Inr \<lparr> item_name = name,
                frame_bg = INVENTORY_EMPTY_COLOUR cfg,
                label_bg = INVENTORY_EMPTY_COLOUR cfg,
                label_text = txt,
                has_buy_button = (name \<in> dom (BUY_PRICES cfg)) \<rparr>)"

text \<open>
  \<^verbatim>\<open>ItemView.update(amount, selected=False)\<close>: the colours are set first, then the label
  text is rebuilt (and may raise on the sell price, after the colours have changed).
\<close>

definition update_colour :: "config \<Rightarrow> int \<Rightarrow> bool \<Rightarrow> string" where
  "update_colour cfg amount selected =
     (if amount > 0 then
        (if selected = False then INVENTORY_COLOUR cfg else INVENTORY_SELECTED_COLOUR cfg)
      else INVENTORY_EMPTY_COLOUR cfg)"

definition ItemView_update :: "config \<Rightarrow> int \<Rightarrow> bool \<Rightarrow> item_view \<Rightarrow> item_view outcome" where
  "ItemView_update cfg amount selected v =
     (let v1 = v\<lparr> frame_bg := update_colour cfg amount selected,
                   label_bg := update_colour cfg amount selected \<rparr>
      in case item_label_text cfg (item_name v1) amount of
           Inl e \<Rightarrow> Raises e v1
         | Inr txt \<Rightarrow> Returns (v1\<lparr> label_text := txt \<rparr>))"

subsection \<open>The simulation model (model.py), from the specification\<close>

datatype tile_kind = Grass | Soil | TilledSoil

type_synonym position = "int \<times> int"

type_synonym grid = "tile_kind list list"

datatype direction = UP | DOWN | LEFT | RIGHT

datatype model_error = OutOfBounds

text \<open>
  Modelled from the spec: \<^verbatim>\<open>Grid\<close> of model.py is missing. Section 3: rows of tile kinds,
  dimensions fixed. Section 4.1: \<^verbatim>\<open>tile_at\<close> fails with OutOfBounds outside the
  dimensions; \<^verbatim>\<open>till\<close> turns Soil into TilledSoil and succeeds, fails without effect on
  TilledSoil or Grass; \<^verbatim>\<open>untill\<close> is the inverse; OutOfBounds fails as for \<^verbatim>\<open>tile_at\<close>.
\<close>

definition in_bounds :: "grid \<Rightarrow> position \<Rightarrow> bool" where
  "in_bounds g pos =
     (0 \<le> fst pos \<and> fst pos < int (length g)
      \<and> 0 \<le> snd pos \<and> snd pos < int (length (g ! nat (fst pos))))"

definition tile_at :: "grid \<Rightarrow> position \<Rightarrow> model_error + tile_kind" where
  "tile_at g pos =
     (if in_bounds g pos then Inr (g ! nat (fst pos) ! nat (snd pos)) else Inl OutOfBounds)"

definition set_tile :: "grid \<Rightarrow> position \<Rightarrow> tile_kind \<Rightarrow> grid" where
  "set_tile g pos t = g[nat (fst pos) := (g ! nat (fst pos))[nat (snd pos) := t]]"

definition Grid_till :: "grid \<Rightarrow> position \<Rightarrow> model_error + (bool \<times> grid)" where
  "Grid_till g pos =
     (case tile_at g pos of
        Inl e \<Rightarrow> Inl e
      | Inr t \<Rightarrow> if t = Soil then Inr (True, set_tile g pos TilledSoil) else Inr (False, g))"

definition Grid_untill :: "grid \<Rightarrow> position \<Rightarrow> model_error + (bool \<times> grid)" where
  "Grid_untill g pos =
     (case tile_at g pos of
        Inl e \<Rightarrow> Inl e
      | Inr t \<Rightarrow> if t = TilledSoil then Inr (True, set_tile g pos Soil) else Inr (False, g))"

text \<open>
  Modelled from the spec: the map description's tile codes, section 6
  (\<^verbatim>\<open>G\<close> = Grass, \<^verbatim>\<open>S\<close> = Soil, \<^verbatim>\<open>U\<close> = TilledSoil). \<^verbatim>\<open>get_map\<close>, which the controller
  indexes as \<^verbatim>\<open>get_map()[row][col]\<close> and compares with a character, is the read-only
  projection of the grid to rows of codes.
\<close>

fun tile_code :: "tile_kind \<Rightarrow> char" where
  "tile_code Grass = CHR ''G''"
| "tile_code Soil = CHR ''S''"
| "tile_code TilledSoil = CHR ''U''"

text \<open>
  Modelled from the spec: the plants of model.py are missing. Sections 3 and 4.2: a
  variant fixed at creation, a stage starting at 0; \<^verbatim>\<open>grow\<close> is
  \<^verbatim>\<open>stage = min(stage + 1, max_stage)\<close>; \<^verbatim>\<open>harvest\<close> is legal only at the last stage,
  yields the variant's item and quantity, and a multi-harvest variant goes back to its
  regrowth stage. The controller creates plants with \<^verbatim>\<open>PotatoPlant()\<close>,
  \<^verbatim>\<open>KalePlant()\<close> and \<^verbatim>\<open>BerryPlant()\<close>.
\<close>

record plant =
  plant_variant :: variant
  stage :: nat

definition PotatoPlant :: plant where
  "PotatoPlant = \<lparr> plant_variant = Potato, stage = 0 \<rparr>"

definition KalePlant :: plant where
  "KalePlant = \<lparr> plant_variant = Kale, stage = 0 \<rparr>"

definition BerryPlant :: plant where
  "BerryPlant = \<lparr> plant_variant = Berry, stage = 0 \<rparr>"

definition plant_max_stage :: "config \<Rightarrow> plant \<Rightarrow> nat" where
  "plant_max_stage cfg pl = max_stage (variant_table cfg (plant_variant pl))"

definition grow :: "config \<Rightarrow> plant \<Rightarrow> plant" where
  "grow cfg pl = pl\<lparr> stage := min (stage pl + 1) (plant_max_stage cfg pl) \<rparr>"

definition is_harvestable :: "config \<Rightarrow> plant \<Rightarrow> bool" where
  "is_harvestable cfg pl = (stage pl = plant_max_stage cfg pl)"

text \<open>
  \<^verbatim>\<open>harvest\<close>: the yield and what is left of the plant (\<open>None\<close>: a single-harvest plant,
  which the caller deletes), or \<open>None\<close> with no effect when the plant is not harvestable.
\<close>

definition harvest :: "config \<Rightarrow> plant \<Rightarrow> ((string \<times> nat) \<times> plant option) option" where
  "harvest cfg pl =
     (if is_harvestable cfg pl then
        (let info = variant_table cfg (plant_variant pl)
         in Some ((yield_item info, yield_qty info),
                  (case regrow_stage info of
                     None \<Rightarrow> None
                   | Some r \<Rightarrow> Some (pl\<lparr> stage := r \<rparr>))))
      else None)"

text \<open>
  Modelled from the spec: the inventory of model.py is missing. Sections 3 and 4.3: a
  mapping from item name to a non-negative count, an absent key meaning zero; \<^verbatim>\<open>add\<close>
  always succeeds; \<^verbatim>\<open>remove\<close> fails without mutation when the holding is less than the
  quantity and decrements otherwise, and a holding that reaches 0 remains an entry.
\<close>

type_synonym inventory = "string \<rightharpoonup> nat"

definition holding :: "inventory \<Rightarrow> string \<Rightarrow> nat" where
  "holding ivt item = (case ivt item of None \<Rightarrow> 0 | Some n \<Rightarrow> n)"

definition Inventory_add :: "inventory \<Rightarrow> string \<Rightarrow> nat \<Rightarrow> inventory" where
  "Inventory_add ivt item qty = ivt(item \<mapsto> holding ivt item + qty)"

definition Inventory_remove :: "inventory \<Rightarrow> string \<Rightarrow> nat \<Rightarrow> bool \<times> inventory" where
  "Inventory_remove ivt item qty =
     (if holding ivt item < qty then (False, ivt)
      else (True, ivt(item \<mapsto> holding ivt item - qty)))"

text \<open>
  Modelled from the spec: \<^verbatim>\<open>Player\<close> of model.py is missing. Sections 3 and 4.4.
  \<^verbatim>\<open>move\<close> fails when the target is outside the grid, fails when the energy is 0, and
  otherwise takes one unit of energy and updates position and direction. \<^verbatim>\<open>buy\<close> needs
  the item in the buy-price table and enough money; \<^verbatim>\<open>sell\<close> needs a holding of at least
  one. \<^verbatim>\<open>select_item\<close> accepts any name. \<^verbatim>\<open>add_item\<close> and \<^verbatim>\<open>remove_item\<close> delegate to
  the inventory.
\<close>

record player =
  position :: position
  direction :: direction
  energy :: nat
  money :: int
  inventory :: inventory
  selected_item :: "string option"

fun delta :: "direction \<Rightarrow> position" where
  "delta UP = (-1, 0)"
| "delta DOWN = (1, 0)"
| "delta LEFT = (0, -1)"
| "delta RIGHT = (0, 1)"

definition Player_move :: "grid \<Rightarrow> direction \<Rightarrow> player \<Rightarrow> bool \<times> player" where
  "Player_move g d p =
     (let target = (fst (position p) + fst (delta d), snd (position p) + snd (delta d))
      in if \<not> in_bounds g target then (False, p)
         else if energy p = 0 then (False, p)
         else (True, p\<lparr> position := target, direction := d, energy := energy p - 1 \<rparr>))"

definition Player_buy :: "config \<Rightarrow> string \<Rightarrow> int \<Rightarrow> player \<Rightarrow> bool \<times> player" where
  "Player_buy cfg item price p =
     (if item \<in> dom (BUY_PRICES cfg) \<and> money p \<ge> price then
        (True, p\<lparr> money := money p - price, inventory := Inventory_add (inventory p) item 1 \<rparr>)
      else (False, p))"

definition Player_sell :: "string \<Rightarrow> int \<Rightarrow> player \<Rightarrow> bool \<times> player" where
  "Player_sell item price p =
     (if holding (inventory p) item \<ge> 1 then
        (True, p\<lparr> inventory := (inventory p)(item \<mapsto> holding (inventory p) item - 1),
                  money := money p + price \<rparr>)
      else (False, p))"

definition Player_select_item :: "string \<Rightarrow> player \<Rightarrow> player" where
  "Player_select_item name p = p\<lparr> selected_item := Some name \<rparr>"

definition Player_add_item :: "string \<times> nat \<Rightarrow> player \<Rightarrow> player" where
  "Player_add_item item p =
     p\<lparr> inventory := Inventory_add (inventory p) (fst item) (snd item) \<rparr>"

definition Player_remove_item :: "string \<times> nat \<Rightarrow> player \<Rightarrow> bool \<times> player" where
  "Player_remove_item item p =
     (let (ok, ivt) = Inventory_remove (inventory p) (fst item) (snd item)
      in (ok, p\<lparr> inventory := ivt \<rparr>))"

text \<open>
  Modelled from the spec: \<^verbatim>\<open>FarmModel\<close> of model.py is missing. Sections 3, 4.5 and 7: it
  owns the grid, the plants by position, the player and the day counter; every failure is
  a "did not happen" result that leaves the state as it was (an illegal position
  included).
\<close>

record farm_model =
  grid :: grid
  plants :: "position \<rightharpoonup> plant"
  player :: player
  days_elapsed :: nat

definition get_map :: "farm_model \<Rightarrow> string list" where
  "get_map m = map (map tile_code) (grid m)"

definition move_player :: "direction \<Rightarrow> farm_model \<Rightarrow> bool \<times> farm_model" where
  "move_player d m =
     (let (ok, p) = Player_move (grid m) d (player m) in (ok, m\<lparr> player := p \<rparr>))"

text \<open>
  \<^verbatim>\<open>till_soil\<close> and \<^verbatim>\<open>untill_soil\<close>: an energy-cost check on the player, then the grid;
  the energy is spent when the action succeeds; a successful untill removes the plant at
  that position.
\<close>

definition till_soil :: "config \<Rightarrow> position \<Rightarrow> farm_model \<Rightarrow> bool \<times> farm_model" where
  "till_soil cfg pos m =
     (if energy (player m) < till_cost cfg then (False, m)
      else (case Grid_till (grid m) pos of
              Inl e \<Rightarrow> (False, m)
            | Inr (ok, g) \<Rightarrow>
                if ok then
                  (True, m\<lparr> grid := g,
                            player := (player m)\<lparr> energy := energy (player m) - till_cost cfg \<rparr> \<rparr>)
                else (False, m)))"

definition untill_soil :: "config \<Rightarrow> position \<Rightarrow> farm_model \<Rightarrow> bool \<times> farm_model" where
  "untill_soil cfg pos m =
     (if energy (player m) < untill_cost cfg then (False, m)
      else (case Grid_untill (grid m) pos of
              Inl e \<Rightarrow> (False, m)
            | Inr (ok, g) \<Rightarrow>
                if ok then
                  (True, m\<lparr> grid := g,
                            plants := (plants m)(pos := None),
                            player := (player m)\<lparr> energy := energy (player m) - untill_cost cfg \<rparr> \<rparr>)
                else (False, m)))"

definition add_plant :: "position \<Rightarrow> plant \<Rightarrow> farm_model \<Rightarrow> bool \<times> farm_model" where
  "add_plant pos pl m =
     (if tile_at (grid m) pos \<noteq> Inr TilledSoil \<or> plants m pos \<noteq> None then (False, m)
      else (True, m\<lparr> plants := (plants m)(pos \<mapsto> pl) \<rparr>))"

definition remove_plant :: "position \<Rightarrow> farm_model \<Rightarrow> bool \<times> farm_model" where
  "remove_plant pos m =
     (case plants m pos of
        None \<Rightarrow> (False, m)
      | Some pl \<Rightarrow> (True, m\<lparr> plants := (plants m)(pos := None) \<rparr>))"

definition harvest_plant ::
  "config \<Rightarrow> position \<Rightarrow> farm_model \<Rightarrow> (string \<times> nat) option \<times> farm_model" where
  "harvest_plant cfg pos m =
     (case plants m pos of
        None \<Rightarrow> (None, m)
      | Some pl \<Rightarrow>
          (case harvest cfg pl of
             None \<Rightarrow> (None, m)
           | Some (yield, rest) \<Rightarrow> (Some yield, m\<lparr> plants := (plants m)(pos := rest) \<rparr>)))"

definition new_day :: "config \<Rightarrow> farm_model \<Rightarrow> farm_model" where
  "new_day cfg m =
     m\<lparr> days_elapsed := days_elapsed m + 1,
        plants := (\<lambda>pos. map_option (grow cfg) (plants m pos)),
        player := (player m)\<lparr> energy := max_energy cfg \<rparr> \<rparr>"

text \<open>
  A fresh model (sections 3 and 8): no plants, day 1, the player at \<open>(0, 0)\<close> with full
  energy and no money. The grid and the starting inventory come from outside.
\<close>

definition FarmModel_init :: "config \<Rightarrow> grid \<Rightarrow> inventory \<Rightarrow> farm_model" where
  "FarmModel_init cfg g ivt =
     \<lparr> grid = g, plants = Map.empty,
       player = \<lparr> position = (0, 0), direction = DOWN, energy = max_energy cfg, money = 0,
                  inventory = ivt, selected_item = None \<rparr>,
       days_elapsed = 1 \<rparr>"

text \<open>
  Every operation the model offers its caller (section 6), as data, and its effect on
  the model. A sequence of operations is run from left to right.
\<close>

datatype model_op =
    MovePlayer direction
  | TillSoil position
  | UntillSoil position
  | AddPlant position plant
  | RemovePlant position
  | HarvestPlant position
  | NewDay
  | Buy string int
  | Sell string int
  | SelectItem string
  | AddItem string nat
  | RemoveItem string nat

fun apply_op :: "config \<Rightarrow> model_op \<Rightarrow> farm_model \<Rightarrow> farm_model" where
  "apply_op cfg (MovePlayer d) m = snd (move_player d m)"
| "apply_op cfg (TillSoil pos) m = snd (till_soil cfg pos m)"
| "apply_op cfg (UntillSoil pos) m = snd (untill_soil cfg pos m)"
| "apply_op cfg (AddPlant pos pl) m = snd (add_plant pos pl m)"
| "apply_op cfg (RemovePlant pos) m = snd (remove_plant pos m)"
| "apply_op cfg (HarvestPlant pos) m = snd (harvest_plant cfg pos m)"
| "apply_op cfg NewDay m = new_day cfg m"
| "apply_op cfg (Buy item price) m = m\<lparr> player := snd (Player_buy cfg item price (player m)) \<rparr>"
| "apply_op cfg (Sell item price) m = m\<lparr> player := snd (Player_sell item price (player m)) \<rparr>"
| "apply_op cfg (SelectItem name) m = m\<lparr> player := Player_select_item name (player m) \<rparr>"
| "apply_op cfg (AddItem item qty) m = m\<lparr> player := Player_add_item (item, qty) (player m) \<rparr>"
| "apply_op cfg (RemoveItem item qty) m =
     m\<lparr> player := snd (Player_remove_item (item, qty) (player m)) \<rparr>"

fun run_ops :: "config \<Rightarrow> model_op list \<Rightarrow> farm_model \<Rightarrow> farm_model" where
  "run_ops cfg [] m = m"
| "run_ops cfg (op # ops) m = run_ops cfg ops (apply_op cfg op m)"

text \<open>The invariant of section 3: every key of \<open>plants\<close> is a TilledSoil position.\<close>

definition plants_on_tilled :: "farm_model \<Rightarrow> bool" where
  "plants_on_tilled m = (\<forall>pos. plants m pos \<noteq> None \<longrightarrow> tile_at (grid m) pos = Inr TilledSoil)"

subsection \<open>The controller FarmGame\<close>

text \<open>
  The calls by which the controller mutates the model or the player, each with the
  result the call returned. The controller's state keeps them in the order issued.
\<close>

datatype call =
    move_player_call direction bool
  | till_soil_call position bool
  | untill_soil_call position bool
  | add_plant_call position plant bool
  | remove_plant_call position bool
  | harvest_plant_call position "(string \<times> nat) option"
  | new_day_call
  | remove_item_call "string \<times> nat" bool
  | add_item_call "string \<times> nat"
  | select_item_call string
  | buy_call string int bool
  | sell_call string int bool

text \<open>
  \<^verbatim>\<open>self._model\<close> (whose player is \<^verbatim>\<open>self._player\<close>, the same object),
  \<^verbatim>\<open>self.item_dict\<close>, and the calls issued so far. The canvases \<^verbatim>\<open>InfoBar\<close> and
  \<^verbatim>\<open>FarmView\<close> only read the model through its accessors and draw; they are left out.
\<close>

record game =
  model :: farm_model
  item_dict :: "string \<rightharpoonup> item_view"
  calls :: "call list"

text \<open>The calls issued between an earlier state and a later one.\<close>

definition new_calls :: "game \<Rightarrow> game \<Rightarrow> call list" where
  "new_calls g g' = drop (length (calls g)) (calls g')"

definition issue :: "call \<Rightarrow> farm_model \<Rightarrow> game \<Rightarrow> game" where
  "issue c m g = g\<lparr> model := m, calls := calls g @ [c] \<rparr>"

text \<open>
  \<^verbatim>\<open>self.item_dict[key].update(amount, selected)\<close>: the lookup raises \<^verbatim>\<open>KeyError\<close> for a
  key with no view; the view is an object mutated in place.
\<close>

definition view_update :: "config \<Rightarrow> string \<Rightarrow> int \<Rightarrow> bool \<Rightarrow> game \<Rightarrow> game outcome" where
  "view_update cfg key amount selected g =
     (case item_dict g key of
        None \<Rightarrow> Raises (KeyError item_dict_table key) g
      | Some v \<Rightarrow>
          (case ItemView_update cfg amount selected v of
             Returns v' \<Rightarrow> Returns (g\<lparr> item_dict := (item_dict g)(key \<mapsto> v') \<rparr>)
           | Raises e v' \<Rightarrow> Raises e (g\<lparr> item_dict := (item_dict g)(key \<mapsto> v') \<rparr>)))"

text \<open>
  \<^verbatim>\<open>FarmGame.redraw\<close>, the loop over \<^verbatim>\<open>ITEMS\<close>: an item in the inventory is updated with
  its amount and whether it is the selected item, any other item with amount 0.
\<close>

definition redraw_item :: "config \<Rightarrow> string \<Rightarrow> game \<Rightarrow> game outcome" where
  "redraw_item cfg name g =
     (case inventory (player (model g)) name of
        Some amount \<Rightarrow>
          (if selected_item (player (model g)) = Some name
           then view_update cfg name (int amount) True g
           else view_update cfg name (int amount) False g)
      | None \<Rightarrow> view_update cfg name 0 False g)"

fun redraw_items :: "config \<Rightarrow> string list \<Rightarrow> game \<Rightarrow> game outcome" where
  "redraw_items cfg [] g = Returns g"
| "redraw_items cfg (name # names) g = and_then (redraw_item cfg name g) (redraw_items cfg names)"

definition redraw :: "config \<Rightarrow> game \<Rightarrow> game outcome" where
  "redraw cfg g = redraw_items cfg (ITEMS cfg) g"

text \<open>
  \<^verbatim>\<open>FarmGame.__init__\<close>: one \<^verbatim>\<open>ItemView\<close> per name of \<^verbatim>\<open>ITEMS\<close>, created with amount 0
  and updated at once when the name is in the starting inventory. A raise leaves no
  controller.
\<close>

fun init_items :: "config \<Rightarrow> string list \<Rightarrow> game \<Rightarrow> py_error + game" where
  "init_items cfg [] g = Inr g"
| "init_items cfg (name # names) g =
     (case ItemView_init cfg name 0 of
        Inl e \<Rightarrow> Inl e
      | Inr v \<Rightarrow>
          (let g1 = g\<lparr> item_dict := (item_dict g)(name \<mapsto> v) \<rparr>
           in case inventory (player (model g1)) name of
                None \<Rightarrow> init_items cfg names g1
              | Some amount \<Rightarrow>
                  (case view_update cfg name (int amount) False g1 of
                     Raises e g2 \<Rightarrow> Inl e
                   | Returns g2 \<Rightarrow> init_items cfg names g2)))"

definition FarmGame_init :: "config \<Rightarrow> farm_model \<Rightarrow> py_error + game" where
  "FarmGame_init cfg m =
     init_items cfg (ITEMS cfg) \<lparr> model = m, item_dict = Map.empty, calls = [] \<rparr>"

text \<open>\<^verbatim>\<open>new_day_redraw\<close>, the command of the "Next day" button.\<close>

definition new_day_redraw :: "config \<Rightarrow> game \<Rightarrow> game outcome" where
  "new_day_redraw cfg g = redraw cfg (issue new_day_call (new_day cfg (model g)) g)"

text \<open>
  Python's \<^verbatim>\<open>xs[i]\<close>: a negative index counts from the end, an index out of range
  raises \<^verbatim>\<open>IndexError\<close>.
\<close>

definition py_index :: "'a list \<Rightarrow> int \<Rightarrow> py_error + 'a" where
  "py_index xs i =
     (if 0 \<le> i \<and> i < int (length xs) then Inr (xs ! nat i)
      else if i < 0 \<and> - int (length xs) \<le> i then Inr (xs ! nat (int (length xs) + i))
      else Inl IndexError)"

text \<open>\<^verbatim>\<open>self._model.get_map()[row][col]\<close> for a position \<^verbatim>\<open>(row, col)\<close>.\<close>

definition map_char :: "farm_model \<Rightarrow> position \<Rightarrow> py_error + char" where
  "map_char m pos =
     (case py_index (get_map m) (fst pos) of
        Inl e \<Rightarrow> Inl e
      | Inr row \<Rightarrow> py_index row (snd pos))"

text \<open>
  \<^verbatim>\<open>s.split()[0]\<close>: the first maximal run of characters that are not whitespace;
  \<^verbatim>\<open>IndexError\<close> when there is none. A \<open>char\<close> stands for the character with that
  code point (0 to 255). The characters at which \<^verbatim>\<open>str.split()\<close> splits, in that range:
  tab, line feed, vertical tab, form feed, carriage return (0x09 to 0x0D), the separators
  0x1C to 0x1F, space (0x20), next line (0x85) and no-break space (0xA0).
\<close>

definition is_space :: "char \<Rightarrow> bool" where
  "is_space c = (c \<in> set [CHR 0x09, CHR 0x0A, CHR 0x0B, CHR 0x0C, CHR 0x0D,
                           CHR 0x1C, CHR 0x1D, CHR 0x1E, CHR 0x1F, CHR 0x20,
                           CHR 0x85, CHR 0xA0])"

definition split_first :: "string \<Rightarrow> py_error + string" where
  "split_first s =
     (case dropWhile is_space s of
        [] \<Rightarrow> Inl IndexError
      | c # cs \<Rightarrow> Inr (takeWhile (\<lambda>x. \<not> is_space x) (c # cs)))"

text \<open>
  The \<^verbatim>\<open>if\<close>/\<^verbatim>\<open>elif\<close> chain on \<^verbatim>\<open>plant_name\<close> with no \<^verbatim>\<open>else\<close>: \<open>None\<close> is the local
  variable \<^verbatim>\<open>plant\<close> left unbound.
\<close>

definition plant_for :: "string \<Rightarrow> plant option" where
  "plant_for plant_name =
     (if plant_name = ''Potato'' then Some PotatoPlant
      else if plant_name = ''Kale'' then Some KalePlant
      else if plant_name = ''Berry'' then Some BerryPlant
      else None)"

text \<open>
  The \<^verbatim>\<open>'p'\<close> branch of \<^verbatim>\<open>handle_keypress\<close>. \<^verbatim>\<open>None in inventory\<close> is false, so no
  selected item ends the branch. Reading the unbound \<^verbatim>\<open>plant\<close> raises while the arguments
  of \<^verbatim>\<open>add_plant\<close> are evaluated, before the call. \<^verbatim>\<open>add_plant\<close> leaves the player as it
  is, so the \<^verbatim>\<open>get_selected_item()\<close> of the \<^verbatim>\<open>remove_item\<close> call reads the same name.
\<close>

definition plant_key :: "config \<Rightarrow> game \<Rightarrow> game outcome" where
  "plant_key cfg g =
     (let m = model g; pos = position (player m)
      in case map_char m pos of
           Inl e \<Rightarrow> Raises e g
         | Inr c \<Rightarrow>
             if c = SOIL cfg then
               (case selected_item (player m) of
                  None \<Rightarrow> Returns g
                | Some sel \<Rightarrow>
                    if sel \<in> dom (inventory (player m)) then
                      if sel \<in> set (SEEDS cfg) then
                        (case split_first sel of
                           Inl e \<Rightarrow> Raises e g
                         | Inr plant_name \<Rightarrow>
                             (case plant_for plant_name of
                                None \<Rightarrow> Raises UnboundLocalError g
                              | Some pl \<Rightarrow>
                                  (let (ok, m1) = add_plant pos pl m;
                                       g1 = issue (add_plant_call pos pl ok) m1 g
                                   in if ok = True then
                                        (let (r, p) = Player_remove_item (sel, 1) (player m1)
                                         in Returns (issue (remove_item_call (sel, 1) r)
                                                       (m1\<lparr> player := p \<rparr>) g1))
                                      else Returns g1)))
                      else Returns g
                    else Returns g)
             else Returns g)"

text \<open>The \<^verbatim>\<open>'h'\<close> branch: the harvest is added to the inventory when it is not \<^verbatim>\<open>None\<close>.\<close>

definition harvest_key :: "config \<Rightarrow> game \<Rightarrow> game outcome" where
  "harvest_key cfg g =
     (let pos = position (player (model g));
          (harvest, m1) = harvest_plant cfg pos (model g);
          g1 = issue (harvest_plant_call pos harvest) m1 g
      in case harvest of
           None \<Rightarrow> Returns g1
         | Some item \<Rightarrow>
             Returns (issue (add_item_call item)
                        (m1\<lparr> player := Player_add_item item (player m1) \<rparr>) g1))"

text \<open>
  \<^verbatim>\<open>handle_keypress\<close>: the branch of the key, then \<^verbatim>\<open>self.redraw()\<close>. A key outside the
  chain runs no branch.
\<close>

definition key_action :: "config \<Rightarrow> string \<Rightarrow> game \<Rightarrow> game outcome" where
  "key_action cfg keysym g =
     (let m = model g; pos = position (player m)
      in if keysym = ''w'' then
           (let (ok, m1) = move_player UP m in Returns (issue (move_player_call UP ok) m1 g))
         else if keysym = ''a'' then
           (let (ok, m1) = move_player LEFT m in Returns (issue (move_player_call LEFT ok) m1 g))
         else if keysym = ''s'' then
           (let (ok, m1) = move_player DOWN m in Returns (issue (move_player_call DOWN ok) m1 g))
         else if keysym = ''d'' then
           (let (ok, m1) = move_player RIGHT m in Returns (issue (move_player_call RIGHT ok) m1 g))
         else if keysym = ''t'' then
           (let (ok, m1) = till_soil cfg pos m in Returns (issue (till_soil_call pos ok) m1 g))
         else if keysym = ''u'' then
           (let (ok, m1) = untill_soil cfg pos m in Returns (issue (untill_soil_call pos ok) m1 g))
         else if keysym = ''p'' then plant_key cfg g
         else if keysym = ''r'' then
           (let (ok, m1) = remove_plant pos m in Returns (issue (remove_plant_call pos ok) m1 g))
         else if keysym = ''h'' then harvest_key cfg g
         else Returns g)"

definition handle_keypress :: "config \<Rightarrow> string \<Rightarrow> game \<Rightarrow> game outcome" where
  "handle_keypress cfg keysym g = and_then (key_action cfg keysym g) (redraw cfg)"

text \<open>
  \<^verbatim>\<open>FarmGame.select_item\<close>: the view of the previously selected item is updated as
  unselected, then the player selects the name, then the view of the newly selected item is
  updated as selected when the item is in the inventory.
\<close>

definition unselect_previous :: "config \<Rightarrow> game \<Rightarrow> game outcome" where
  "unselect_previous cfg g =
     (case selected_item (player (model g)) of
        None \<Rightarrow> Returns g
      | Some sel \<Rightarrow>
          (case inventory (player (model g)) sel of
             None \<Rightarrow> view_update cfg sel 0 False g
           | Some amount \<Rightarrow> view_update cfg sel (int amount) False g))"

definition select_new :: "config \<Rightarrow> string \<Rightarrow> game \<Rightarrow> game outcome" where
  "select_new cfg name g =
     (let m = model g;
          g1 = issue (select_item_call name) (m\<lparr> player := Player_select_item name (player m) \<rparr>) g
      in case selected_item (player (model g1)) of
           None \<Rightarrow> Returns g1
         | Some sel \<Rightarrow>
             (case inventory (player (model g1)) sel of
                None \<Rightarrow> Returns g1
              | Some amount \<Rightarrow> view_update cfg sel (int amount) True g1))"

definition FarmGame_select_item :: "config \<Rightarrow> string \<Rightarrow> game \<Rightarrow> game outcome" where
  "FarmGame_select_item cfg name g = and_then (unselect_previous cfg g) (select_new cfg name)"

text \<open>
  \<^verbatim>\<open>buy_item\<close> and \<^verbatim>\<open>sell_item\<close>: the price is looked up unguarded, the player buys or
  sells, the view is redrawn.
\<close>

definition buy_item :: "config \<Rightarrow> string \<Rightarrow> game \<Rightarrow> game outcome" where
  "buy_item cfg name g =
     (case BUY_PRICES cfg name of
        None \<Rightarrow> Raises (KeyError BUY_PRICES_table name) g
      | Some price \<Rightarrow>
          (let (ok, p) = Player_buy cfg name price (player (model g))
           in redraw cfg (issue (buy_call name price ok) ((model g)\<lparr> player := p \<rparr>) g)))"

definition sell_item :: "config \<Rightarrow> string \<Rightarrow> game \<Rightarrow> game outcome" where
  "sell_item cfg name g =
     (case SELL_PRICES cfg name of
        None \<Rightarrow> Raises (KeyError SELL_PRICES_table name) g
      | Some price \<Rightarrow>
          (let (ok, p) = Player_sell name price (player (model g))
           in redraw cfg (issue (sell_call name price ok) ((model g)\<lparr> player := p \<rparr>) g)))"

text \<open>
  The events the window can deliver: a key, the "Next day" button, and for an
  \<^verbatim>\<open>ItemView\<close> its Buy button, its Sell button and a left click on its frame or label.
  An event of a view is possible only when that widget exists: the Buy button exists
  only when \<^verbatim>\<open>__init__\<close> created it. Each widget calls its command with the view's own
  \<^verbatim>\<open>_item_name\<close>.
\<close>

datatype event =
    KeyPress string
  | NextDayButton
  | BuyButton string
  | SellButton string
  | LeftClick string

fun event_possible :: "game \<Rightarrow> event \<Rightarrow> bool" where
  "event_possible g (KeyPress keysym) = True"
| "event_possible g NextDayButton = True"
| "event_possible g (BuyButton key) =
     (case item_dict g key of None \<Rightarrow> False | Some v \<Rightarrow> has_buy_button v)"
| "event_possible g (SellButton key) = (item_dict g key \<noteq> None)"
| "event_possible g (LeftClick key) = (item_dict g key \<noteq> None)"

fun dispatch :: "config \<Rightarrow> event \<Rightarrow> game \<Rightarrow> game outcome" where
  "dispatch cfg (KeyPress keysym) g = handle_keypress cfg keysym g"
| "dispatch cfg NextDayButton g = new_day_redraw cfg g"
| "dispatch cfg (BuyButton key) g =
     (case item_dict g key of None \<Rightarrow> Returns g | Some v \<Rightarrow> buy_item cfg (item_name v) g)"
| "dispatch cfg (SellButton key) g =
     (case item_dict g key of None \<Rightarrow> Returns g | Some v \<Rightarrow> sell_item cfg (item_name v) g)"
| "dispatch cfg (LeftClick key) g =
     (case item_dict g key of
        None \<Rightarrow> Returns g
      | Some v \<Rightarrow> FarmGame_select_item cfg (item_name v) g)"

text \<open>
  The main loop: events are handled one after the other; a raise in a handler is
  reported and the loop goes on with the state as the handler left it. \<open>None\<close> when an
  event of the list is not possible in the state it would arrive in.
\<close>

fun run_events :: "config \<Rightarrow> event list \<Rightarrow> game \<Rightarrow> game option" where
  "run_events cfg [] g = Some g"
| "run_events cfg (ev # evs) g =
     (if event_possible g ev then run_events cfg evs (state_of (dispatch cfg ev g)) else None)"

definition price_key_error :: "py_error option \<Rightarrow> bool" where
  "price_key_error e =
     (case e of
        Some (KeyError t k) \<Rightarrow> t = BUY_PRICES_table \<or> t = SELL_PRICES_table
      | _ \<Rightarrow> False)"

text \<open>
  What \<^verbatim>\<open>__init__\<close> fixes of each view and no handler changes: the item a view names and
  whether it has a Buy button. A controller is wired for a configuration when it has
  exactly one view per name of \<^verbatim>\<open>ITEMS\<close>, each naming its own key, with a Buy button only
  for a name in \<^verbatim>\<open>BUY_PRICES\<close>, and every name of \<^verbatim>\<open>ITEMS\<close> has a sell price.
\<close>

definition wiring :: "game \<Rightarrow> string \<rightharpoonup> (string \<times> bool)" where
  "wiring g key = map_option (\<lambda>v. (item_name v, has_buy_button v)) (item_dict g key)"

definition wired :: "config \<Rightarrow> game \<Rightarrow> bool" where
  "wired cfg g =
     ((\<forall>key. wiring g key =
          (if key \<in> set (ITEMS cfg) then Some (key, key \<in> dom (BUY_PRICES cfg)) else None))
      \<and> (\<forall>key \<in> set (ITEMS cfg). key \<in> dom (SELL_PRICES cfg)))"

text \<open>A configuration and a view for evaluating the definitions at concrete inputs.\<close>

definition sample_variant_table :: "variant \<Rightarrow> variant_info" where
  "sample_variant_table v =
     (case v of
        Potato \<Rightarrow> \<lparr> max_stage = 5, yield_item = ''Potato'', yield_qty = 5, regrow_stage = None \<rparr>
      | Kale \<Rightarrow> \<lparr> max_stage = 5, yield_item = ''Kale'', yield_qty = 1, regrow_stage = None \<rparr>
      | Berry \<Rightarrow> \<lparr> max_stage = 6, yield_item = ''Berry'', yield_qty = 5,
                    regrow_stage = Some 3 \<rparr>)"

definition sample_config :: config where
  "sample_config =
     \<lparr> SOIL = CHR ''U'',
       SEEDS = [''Potato Seed'', ''Kale Seed'', ''Berry Seed''],
       ITEMS = [''Potato Seed'', ''Kale Seed'', ''Berry Seed'', ''Potato'', ''Kale'', ''Berry''],
       BUY_PRICES = [''Potato Seed'' \<mapsto> 5, ''Kale Seed'' \<mapsto> 10, ''Berry Seed'' \<mapsto> 15],
       SELL_PRICES = [''Potato Seed'' \<mapsto> 2, ''Kale Seed'' \<mapsto> 4, ''Berry Seed'' \<mapsto> 6,
                      ''Potato'' \<mapsto> 10, ''Kale'' \<mapsto> 20, ''Berry'' \<mapsto> 8],
       INVENTORY_COLOUR = ''#fdc074'',
       INVENTORY_SELECTED_COLOUR = ''#d68f54'',
       INVENTORY_EMPTY_COLOUR = ''grey'',
       max_energy = 100,
       till_cost = 0,
       untill_cost = 0,
       variant_table = sample_variant_table \<rparr>"

definition sample_grid :: grid where
  "sample_grid = [[TilledSoil, Soil, TilledSoil], [Grass, Soil, Soil]]"

definition sample_model :: farm_model where
  "sample_model =
     (FarmModel_init sample_config sample_grid [''Potato Seed'' \<mapsto> 1])
       \<lparr> player := (player (FarmModel_init sample_config sample_grid [''Potato Seed'' \<mapsto> 1]))
                     \<lparr> selected_item := Some ''Potato Seed'' \<rparr> \<rparr>"

definition sample_game :: game where
  "sample_game =
     (case FarmGame_init sample_config sample_model of
        Inr g \<Rightarrow> g
      | Inl e \<Rightarrow> \<lparr> model = sample_model, item_dict = Map.empty, calls = [] \<rparr>)"

text \<open>The sample game with a ripe potato plant under the player.\<close>

definition ripe_game :: game where
  "ripe_game =
     sample_game\<lparr> model := (model sample_game)
                     \<lparr> plants := [(0, 0) \<mapsto> \<lparr> plant_variant = Potato, stage = 5 \<rparr>] \<rparr> \<rparr>"

text \<open>
  A configuration whose \<^verbatim>\<open>SEEDS\<close> holds a name with another first word, and a game in
  which that seed is held and selected.
\<close>

definition carrot_config :: config where
  "carrot_config =
     sample_config\<lparr> SEEDS := [''Potato Seed'', ''Carrot Seed''],
                    ITEMS := [''Potato Seed'', ''Carrot Seed''],
                    SELL_PRICES := [''Potato Seed'' \<mapsto> 2, ''Carrot Seed'' \<mapsto> 3] \<rparr>"

definition carrot_game :: game where
  "carrot_game =
     (let m = (FarmModel_init carrot_config sample_grid [''Carrot Seed'' \<mapsto> 1])
      in case FarmGame_init carrot_config
                (m\<lparr> player := (player m)\<lparr> selected_item := Some ''Carrot Seed'' \<rparr> \<rparr>) of
           Inr g \<Rightarrow> g
         | Inl e \<Rightarrow> \<lparr> model = m, item_dict = Map.empty, calls = [] \<rparr>)"

text \<open>
  The sample game after the keys \<^verbatim>\<open>p\<close> (the one potato seed is planted) and \<^verbatim>\<open>r\<close> (the
  plant is removed again).
\<close>

definition zero_game :: game where
  "zero_game =
     state_of (handle_keypress sample_config ''r''
                 (state_of (handle_keypress sample_config ''p'' sample_game)))"

text \<open>
  A configuration whose only seed is named with a no-break space between the words, and
  a game in which that seed is held and selected.
\<close>

definition nbsp_seed :: string where
  "nbsp_seed = ''Potato'' @ [CHR 0xA0] @ ''Seed''"

definition nbsp_config :: config where
  "nbsp_config =
     sample_config\<lparr> SEEDS := [nbsp_seed], ITEMS := [nbsp_seed],
                    SELL_PRICES := [nbsp_seed \<mapsto> 2] \<rparr>"

definition nbsp_game :: game where
  "nbsp_game =
     (let m = (FarmModel_init nbsp_config sample_grid [nbsp_seed \<mapsto> 1])
      in case FarmGame_init nbsp_config
                (m\<lparr> player := (player m)\<lparr> selected_item := Some nbsp_seed \<rparr> \<rparr>) of
           Inr g \<Rightarrow> g
         | Inl e \<Rightarrow> \<lparr> model = m, item_dict = Map.empty, calls = [] \<rparr>)"


definition sample_view :: item_view where
  "sample_view =
     \<lparr> item_name = ''Potato'', frame_bg = ''grey'', label_bg = ''grey'',
       label_text = [], has_buy_button = False \<rparr>"

text \<open>
  The sample game after two events: the Buy button of the potato seed, then the key
  \<^verbatim>\<open>p\<close>.
\<close>

definition played_game :: game where
  "played_game =
     state_of (dispatch sample_config (KeyPress ''p'')
       (state_of (dispatch sample_config (BuyButton ''Potato Seed'') sample_game)))"

text \<open>
  A model with a potato plant and a berry plant in which the player has moved twice, and
  the same model seven days later.
\<close>

definition tired_model :: farm_model where
  "tired_model =
     run_ops sample_config
       [AddPlant (0, 0) PotatoPlant, AddPlant (0, 2) BerryPlant, MovePlayer DOWN, MovePlayer UP]
       (FarmModel_init sample_config sample_grid Map.empty)"

definition grown_model :: farm_model where
  "grown_model = run_ops sample_config (replicate 7 NewDay) tired_model"

text \<open>
  A fresh model on the sample grid in which a tile was tilled and planted with kale, one
  day later.
\<close>

definition tilled_model :: farm_model where
  "tilled_model =
     run_ops sample_config [TillSoil (0, 1), AddPlant (0, 1) KalePlant, NewDay]
       (FarmModel_init sample_config sample_grid Map.empty)"

section \<open>Theorems\<close>

subsection \<open>ItemView.update\<close>

lemma update_bg:
  "frame_bg (state_of (ItemView_update cfg amount selected v)) = update_colour cfg amount selected
   \<and> label_bg (state_of (ItemView_update cfg amount selected v)) = update_colour cfg amount selected"
  by (simp add: ItemView_update_def Let_def split: sum.splits)

text \<open>
  Claim C10. After \<^verbatim>\<open>ItemView.update(amount, selected)\<close> (whether it returns or raises on
  the sell price), the frame and the label have the same background, and, the three colour
  constants being pairwise distinct, that background is the selected colour exactly when
  \<open>amount > 0\<close> and \<open>selected\<close>, the plain inventory colour exactly when \<open>amount > 0\<close> and
  not \<open>selected\<close>, and the empty colour exactly when \<open>amount \<le> 0\<close>; so a selected item
  whose amount is 0 is shown with the empty colour.
\<close>

theorem update_colours:
  assumes "INVENTORY_COLOUR cfg \<noteq> INVENTORY_SELECTED_COLOUR cfg"
    and "INVENTORY_COLOUR cfg \<noteq> INVENTORY_EMPTY_COLOUR cfg"
    and "INVENTORY_SELECTED_COLOUR cfg \<noteq> INVENTORY_EMPTY_COLOUR cfg"
    and "v' = state_of (ItemView_update cfg amount selected v)"
  shows "frame_bg v' = label_bg v'
    \<and> (frame_bg v' = INVENTORY_SELECTED_COLOUR cfg \<longleftrightarrow> amount > 0 \<and> selected)
    \<and> (frame_bg v' = INVENTORY_COLOUR cfg \<longleftrightarrow> amount > 0 \<and> \<not> selected)
    \<and> (frame_bg v' = INVENTORY_EMPTY_COLOUR cfg \<longleftrightarrow> amount \<le> 0)
    \<and> (amount = 0 \<and> selected \<longrightarrow> frame_bg v' = INVENTORY_EMPTY_COLOUR cfg
          \<and> label_bg v' = INVENTORY_EMPTY_COLOUR cfg)"
  using assms update_bg [of cfg amount selected v]
  by (auto simp: update_colour_def)

theorem update_colours_witness:
  "frame_bg (state_of (ItemView_update sample_config 0 True sample_view)) = ''grey''
   \<and> label_bg (state_of (ItemView_update sample_config 0 True sample_view)) = ''grey''
   \<and> raised (ItemView_update sample_config 0 True sample_view) = None"
proof -
  have d: "INVENTORY_COLOUR sample_config \<noteq> INVENTORY_SELECTED_COLOUR sample_config"
    "INVENTORY_COLOUR sample_config \<noteq> INVENTORY_EMPTY_COLOUR sample_config"
    "INVENTORY_SELECTED_COLOUR sample_config \<noteq> INVENTORY_EMPTY_COLOUR sample_config"
    by (simp_all add: sample_config_def)
  have r: "raised (ItemView_update sample_config 0 True sample_view) = None"
    by (simp add: ItemView_update_def item_label_text_def sample_config_def sample_view_def)
  from update_colours [OF d refl, of 0 True sample_view] r
  show ?thesis by (simp add: sample_config_def)
qed

subsection \<open>What redrawing leaves alone\<close>

lemma view_update_frame:
  "model (state_of (view_update cfg key amount selected g)) = model g
   \<and> calls (state_of (view_update cfg key amount selected g)) = calls g"
  by (simp add: view_update_def split: option.splits outcome.splits)

lemma redraw_item_frame:
  "model (state_of (redraw_item cfg name g)) = model g
   \<and> calls (state_of (redraw_item cfg name g)) = calls g"
  by (simp add: redraw_item_def view_update_frame split: option.splits)

lemma redraw_items_frame:
  "model (state_of (redraw_items cfg names g)) = model g
   \<and> calls (state_of (redraw_items cfg names g)) = calls g"
proof (induction names arbitrary: g)
  case Nil
  then show ?case by simp
next
  case (Cons name names)
  show ?case
  proof (cases "redraw_item cfg name g")
    case (Returns g1)
    with Cons [of g1] redraw_item_frame [of cfg name g] show ?thesis by simp
  next
    case (Raises e g1)
    with redraw_item_frame [of cfg name g] show ?thesis by simp
  qed
qed

lemma redraw_frame:
  "model (state_of (redraw cfg g)) = model g \<and> calls (state_of (redraw cfg g)) = calls g"
  by (simp add: redraw_def redraw_items_frame)

lemma handle_keypress_frame:
  "model (state_of (handle_keypress cfg keysym g)) = model (state_of (key_action cfg keysym g))
   \<and> calls (state_of (handle_keypress cfg keysym g)) = calls (state_of (key_action cfg keysym g))"
  by (cases "key_action cfg keysym g") (simp_all add: handle_keypress_def redraw_frame)

subsection \<open>Keys outside the table\<close>

text \<open>
  Claim C8. For a key that is none of \<^verbatim>\<open>w a s d t u p r h\<close>, \<^verbatim>\<open>handle_keypress\<close> issues no
  mutating call and leaves the whole model (grid, plants, player, days elapsed) as it was.
\<close>

theorem other_key_frame:
  assumes "keysym \<notin> {''w'', ''a'', ''s'', ''d'', ''t'', ''u'', ''p'', ''r'', ''h''}"
  shows "model (state_of (handle_keypress cfg keysym g)) = model g
    \<and> new_calls g (state_of (handle_keypress cfg keysym g)) = []"
proof -
  from assms have "key_action cfg keysym g = Returns g"
    by (simp add: key_action_def Let_def)
  then show ?thesis
    using handle_keypress_frame [of cfg keysym g] by (simp add: new_calls_def)
qed

theorem other_key_frame_witness:
  "model (state_of (handle_keypress sample_config ''x'' sample_game)) = model sample_game
   \<and> new_calls sample_game (state_of (handle_keypress sample_config ''x'' sample_game)) = []"
  using other_key_frame [of "''x''" sample_config sample_game] by simp

subsection \<open>The plant key\<close>

lemma add_plant_player: "player (snd (add_plant pos pl m)) = player m"
  by (simp add: add_plant_def)

lemma harvest_plant_player: "player (snd (harvest_plant cfg pos m)) = player m"
  by (simp add: harvest_plant_def split: option.splits prod.splits)

lemma key_p: "key_action cfg ''p'' g = plant_key cfg g"
  by (simp add: key_action_def Let_def)

lemma key_h: "key_action cfg ''h'' g = harvest_key cfg g"
  by (simp add: key_action_def Let_def)

lemma new_calls_handle_keypress:
  "new_calls g (state_of (handle_keypress cfg keysym g))
     = new_calls g (state_of (key_action cfg keysym g))"
  by (simp add: new_calls_def handle_keypress_frame)

lemma py_index_error: "py_index xs i = Inl e \<Longrightarrow> e = IndexError"
  by (auto simp: py_index_def Let_def split: if_splits)

lemma map_char_error: "map_char m pos = Inl e \<Longrightarrow> e = IndexError"
  by (auto simp: map_char_def split: sum.splits dest: py_index_error)

lemma split_first_error: "split_first s = Inl e \<Longrightarrow> e = IndexError"
  by (auto simp: split_first_def split: list.splits)

text \<open>The guard of the 'p' branch.\<close>

lemma plant_key_unguarded:
  assumes "\<not> (map_char (model g) (position (player (model g))) = Inr (SOIL cfg)
              \<and> (\<exists>sel. selected_item (player (model g)) = Some sel
                     \<and> sel \<in> dom (inventory (player (model g)))
                     \<and> sel \<in> set (SEEDS cfg)))"
  shows "state_of (plant_key cfg g) = g \<and> raised (plant_key cfg g) \<noteq> Some UnboundLocalError"
  using assms
  by (auto simp: plant_key_def Let_def split: sum.splits option.splits dest: map_char_error)

lemma plant_key_no_word:
  assumes "map_char (model g) (position (player (model g))) = Inr (SOIL cfg)"
    and "selected_item (player (model g)) = Some sel"
    and "sel \<in> dom (inventory (player (model g)))"
    and "sel \<in> set (SEEDS cfg)"
    and "split_first sel = Inl e"
  shows "plant_key cfg g = Raises IndexError g"
  using assms split_first_error [of sel e] by (auto simp: plant_key_def Let_def)

lemma plant_key_unbound:
  assumes "map_char (model g) (position (player (model g))) = Inr (SOIL cfg)"
    and "selected_item (player (model g)) = Some sel"
    and "sel \<in> dom (inventory (player (model g)))"
    and "sel \<in> set (SEEDS cfg)"
    and "split_first sel = Inr w"
    and "plant_for w = None"
  shows "plant_key cfg g = Raises UnboundLocalError g"
  using assms by (auto simp: plant_key_def Let_def)

lemma plant_key_planting:
  assumes "map_char (model g) (position (player (model g))) = Inr (SOIL cfg)"
    and "selected_item (player (model g)) = Some sel"
    and "sel \<in> dom (inventory (player (model g)))"
    and "sel \<in> set (SEEDS cfg)"
    and "split_first sel = Inr w"
    and "plant_for w = Some pl"
  shows "plant_key cfg g =
     (if fst (add_plant (position (player (model g))) pl (model g)) then
        Returns (issue (remove_item_call (sel, 1)
                          (fst (Player_remove_item (sel, 1) (player (model g)))))
                   ((snd (add_plant (position (player (model g))) pl (model g)))
                      \<lparr> player := snd (Player_remove_item (sel, 1) (player (model g))) \<rparr>)
                   (issue (add_plant_call (position (player (model g))) pl True)
                      (snd (add_plant (position (player (model g))) pl (model g))) g))
      else
        Returns (issue (add_plant_call (position (player (model g))) pl False)
                   (snd (add_plant (position (player (model g))) pl (model g))) g))"
proof -
  obtain ok m1 where a: "add_plant (position (player (model g))) pl (model g) = (ok, m1)"
    by (cases "add_plant (position (player (model g))) pl (model g)") auto
  then have p: "player m1 = player (model g)"
    using add_plant_player [of "position (player (model g))" pl "model g"] by simp
  obtain r q where b: "Player_remove_item (sel, 1) (player (model g)) = (r, q)"
    by (cases "Player_remove_item (sel, 1) (player (model g))") auto
  from assms a b p show ?thesis
    by (auto simp: plant_key_def Let_def)
qed


lemma plant_key_cases:
  "state_of (plant_key cfg g) = g
   \<or> (\<exists>sel w pl.
         map_char (model g) (position (player (model g))) = Inr (SOIL cfg)
         \<and> selected_item (player (model g)) = Some sel
         \<and> sel \<in> dom (inventory (player (model g)))
         \<and> sel \<in> set (SEEDS cfg)
         \<and> split_first sel = Inr w
         \<and> plant_for w = Some pl)"
proof (cases "map_char (model g) (position (player (model g))) = Inr (SOIL cfg)
              \<and> (\<exists>sel. selected_item (player (model g)) = Some sel
                     \<and> sel \<in> dom (inventory (player (model g)))
                     \<and> sel \<in> set (SEEDS cfg))")
  case False
  then show ?thesis using plant_key_unguarded [of g cfg] by simp
next
  case True
  then obtain sel where g: "map_char (model g) (position (player (model g))) = Inr (SOIL cfg)"
    "selected_item (player (model g)) = Some sel"
    "sel \<in> dom (inventory (player (model g)))" "sel \<in> set (SEEDS cfg)"
    by blast
  show ?thesis
  proof (cases "split_first sel")
    case (Inl e)
    with g show ?thesis using plant_key_no_word [of g cfg sel e] by simp
  next
    case (Inr w)
    show ?thesis
    proof (cases "plant_for w")
      case None
      with g Inr show ?thesis using plant_key_unbound [of g cfg sel w] by simp
    next
      case (Some pl)
      with g Inr show ?thesis by blast
    qed
  qed
qed

lemma new_calls_same: "new_calls g g = []"
  by (simp add: new_calls_def)

lemma new_calls_issue: "new_calls g (issue c m g) = [c]"
  by (simp add: new_calls_def issue_def)

lemma new_calls_issue2: "new_calls g (issue c2 m2 (issue c1 m1 g)) = [c1, c2]"
  by (simp add: new_calls_def issue_def)

lemma model_issue: "model (issue c m g) = m"
  by (simp add: issue_def)

lemma tile_code_inj: "tile_code t = tile_code t' \<Longrightarrow> t = t'"
  by (cases t; cases t') simp_all

lemma map_char_in_bounds:
  assumes "in_bounds (grid m) pos"
  shows "map_char m pos = Inr (tile_code (grid m ! nat (fst pos) ! nat (snd pos)))"
proof -
  from assms have r: "nat (fst pos) < length (grid m)"
    and c: "nat (snd pos) < length (grid m ! nat (fst pos))"
    and z: "0 \<le> fst pos" "0 \<le> snd pos"
    by (auto simp: in_bounds_def)
  from r z have 1: "py_index (get_map m) (fst pos) = Inr (map tile_code (grid m ! nat (fst pos)))"
    by (auto simp: py_index_def get_map_def Let_def)
  from c z have 2: "py_index (map tile_code (grid m ! nat (fst pos))) (snd pos)
      = Inr (tile_code (grid m ! nat (fst pos) ! nat (snd pos)))"
    by (auto simp: py_index_def Let_def)
  from 1 2 show ?thesis by (simp add: map_char_def)
qed

text \<open>
  The guard of the \<^verbatim>\<open>'p'\<close> branch as the code has it. \<^verbatim>\<open>add_plant\<close> is called (with a
  plant the controller created) only at the player's position, only when the map character
  there equals the constant \<^verbatim>\<open>SOIL\<close> and the selected item is in \<^verbatim>\<open>SEEDS\<close> and is a key
  of the inventory (\<^verbatim>\<open>in inventory\<close>, whatever its count); when \<^verbatim>\<open>SOIL\<close> is the tile code of
  TilledSoil and the position is inside the grid, the tile there is TilledSoil. In every
  other case no call is issued and the model, its plants included, is as before.
\<close>

lemma add_plant_only_when_guarded:
  fixes cfg :: config and g :: game
  defines "m \<equiv> model g"
  defines "g' \<equiv> state_of (handle_keypress cfg ''p'' g)"
  shows
    "(add_plant_call pos pl ok \<in> set (new_calls g g') \<longrightarrow>
        pos = position (player m)
        \<and> map_char m pos = Inr (SOIL cfg)
        \<and> (\<exists>sel. selected_item (player m) = Some sel
               \<and> sel \<in> set (SEEDS cfg)
               \<and> sel \<in> dom (inventory (player m)))
        \<and> (SOIL cfg = tile_code TilledSoil \<and> in_bounds (grid m) pos \<longrightarrow>
             tile_at (grid m) pos = Inr TilledSoil))
     \<and> (\<not> (map_char m (position (player m)) = Inr (SOIL cfg)
            \<and> (\<exists>sel. selected_item (player m) = Some sel
                   \<and> sel \<in> set (SEEDS cfg)
                   \<and> sel \<in> dom (inventory (player m)))) \<longrightarrow>
          new_calls g g' = [] \<and> model g' = m \<and> plants (model g') = plants m)"
proof -
  have n: "new_calls g g' = new_calls g (state_of (plant_key cfg g))"
    unfolding g'_def by (simp add: new_calls_handle_keypress key_p)
  have mo: "model g' = model (state_of (plant_key cfg g))"
    unfolding g'_def using handle_keypress_frame [of cfg "''p''" g] by (simp add: key_p)
  have second: "new_calls g g' = [] \<and> model g' = m \<and> plants (model g') = plants m"
    if "\<not> (map_char m (position (player m)) = Inr (SOIL cfg)
            \<and> (\<exists>sel. selected_item (player m) = Some sel
                   \<and> sel \<in> set (SEEDS cfg)
                   \<and> sel \<in> dom (inventory (player m))))"
  proof -
    from that have "state_of (plant_key cfg g) = g"
      using plant_key_unguarded [of g cfg] unfolding m_def by blast
    with n mo show ?thesis by (simp add: new_calls_same m_def)
  qed
  have first: "pos = position (player m)
        \<and> map_char m pos = Inr (SOIL cfg)
        \<and> (\<exists>sel. selected_item (player m) = Some sel
               \<and> sel \<in> set (SEEDS cfg)
               \<and> sel \<in> dom (inventory (player m)))
        \<and> (SOIL cfg = tile_code TilledSoil \<and> in_bounds (grid m) pos \<longrightarrow>
             tile_at (grid m) pos = Inr TilledSoil)"
    if c: "add_plant_call pos pl ok \<in> set (new_calls g g')"
  proof -
    from c n have ne: "state_of (plant_key cfg g) \<noteq> g"
      by (auto simp: new_calls_same)
    with plant_key_cases [of cfg g] obtain sel w pl' where
      gd: "map_char m (position (player m)) = Inr (SOIL cfg)"
        "selected_item (player m) = Some sel"
        "sel \<in> dom (inventory (player m))" "sel \<in> set (SEEDS cfg)"
        "split_first sel = Inr w" "plant_for w = Some pl'"
      unfolding m_def by blast
    from c n plant_key_planting [of g cfg sel w pl'] gd
    have p: "pos = position (player m)"
      unfolding m_def
      by (auto simp: new_calls_issue new_calls_issue2 split: if_splits)
    have "tile_at (grid m) pos = Inr TilledSoil"
      if "SOIL cfg = tile_code TilledSoil" "in_bounds (grid m) pos"
      using that gd(1) p map_char_in_bounds [of m pos] tile_code_inj
      by (auto simp: tile_at_def)
    with p gd show ?thesis by blast
  qed
  from first second show ?thesis by blast
qed


lemma add_plant_only_when_guarded_at_sample:
  "add_plant_call (0, 0) PotatoPlant True
     \<in> set (new_calls sample_game (state_of (handle_keypress sample_config ''p'' sample_game)))
   \<and> map_char (model sample_game) (0, 0) = Inr (SOIL sample_config)
   \<and> tile_at (grid (model sample_game)) (0, 0) = Inr TilledSoil"
proof -
  have c: "add_plant_call (0, 0) PotatoPlant True
     \<in> set (new_calls sample_game (state_of (handle_keypress sample_config ''p'' sample_game)))"
    by code_simp
  have s: "SOIL sample_config = tile_code TilledSoil"
    by (simp add: sample_config_def)
  have b: "in_bounds (grid (model sample_game)) (0, 0)"
    by code_simp
  from add_plant_only_when_guarded
         [where pos = "(0, 0)" and pl = PotatoPlant and ok = True
            and g = sample_game and cfg = sample_config] c s b
  show ?thesis by blast
qed

text \<open>
  Claim C2 says that \<^verbatim>\<open>add_plant\<close> is called only when the selected item is a seed
  currently present in the inventory. The guard tests the key, not the count. In
  \<open>zero_game\<close> (the sample game after the keys \<^verbatim>\<open>p\<close> and \<^verbatim>\<open>r\<close>) the selected seed is
  still a key of the inventory with count 0, the tile under the player is free, and a
  \<^verbatim>\<open>'p'\<close> keypress creates a plant and calls \<^verbatim>\<open>add_plant\<close>, which succeeds: the code
  plants a seed that is not held.
\<close>

theorem add_plant_called_at_zero_holding:
  "holding (inventory (player (model zero_game))) ''Potato Seed'' = 0
   \<and> selected_item (player (model zero_game)) = Some ''Potato Seed''
   \<and> plants (model zero_game) (0, 0) = None
   \<and> add_plant_call (0, 0) PotatoPlant True
       \<in> set (new_calls zero_game (state_of (handle_keypress sample_config ''p'' zero_game)))
   \<and> plants (model (state_of (handle_keypress sample_config ''p'' zero_game))) (0, 0)
       = Some PotatoPlant"
  by code_simp

subsection \<open>The harvest key\<close>

lemma harvest_key_eq:
  "harvest_key cfg g =
     (case fst (harvest_plant cfg (position (player (model g))) (model g)) of
        None \<Rightarrow>
          Returns (issue (harvest_plant_call (position (player (model g))) None)
                     (snd (harvest_plant cfg (position (player (model g))) (model g))) g)
      | Some item \<Rightarrow>
          Returns (issue (add_item_call item)
                     ((snd (harvest_plant cfg (position (player (model g))) (model g)))
                        \<lparr> player := Player_add_item item (player (model g)) \<rparr>)
                     (issue (harvest_plant_call (position (player (model g))) (Some item))
                        (snd (harvest_plant cfg (position (player (model g))) (model g))) g)))"
proof -
  obtain h m1 where a: "harvest_plant cfg (position (player (model g))) (model g) = (h, m1)"
    by (cases "harvest_plant cfg (position (player (model g))) (model g)") auto
  then have "player m1 = player (model g)"
    using harvest_plant_player [of cfg "position (player (model g))" "model g"] by simp
  with a show ?thesis
    by (simp add: harvest_key_def Let_def split: option.splits)
qed

lemma harvest_plant_None:
  "fst (harvest_plant cfg pos m) = None \<longleftrightarrow>
     (case plants m pos of None \<Rightarrow> True | Some pl \<Rightarrow> \<not> is_harvestable cfg pl)"
  by (auto simp: harvest_plant_def harvest_def Let_def split: option.splits prod.splits)

text \<open>
  Claim C4. On an \<^verbatim>\<open>'h'\<close> keypress \<^verbatim>\<open>harvest_plant\<close> at the player's position returns an
  optional pair. When it is \<^verbatim>\<open>None\<close> (exactly when no plant is there or the plant is not
  harvestable) the controller issues no further call and the inventory is as before; when
  it is a pair the controller calls \<^verbatim>\<open>add_item\<close> with that pair, once, and the inventory
  is the old one with the pair added.
\<close>

theorem harvest_added_iff_not_None:
  fixes cfg :: config and g :: game
  defines "m \<equiv> model g"
  defines "pos \<equiv> position (player (model g))"
  defines "g' \<equiv> state_of (handle_keypress cfg ''h'' g)"
  shows
    "(fst (harvest_plant cfg pos m) = None \<longrightarrow>
        new_calls g g' = [harvest_plant_call pos None]
        \<and> inventory (player (model g')) = inventory (player m))
     \<and> (\<forall>item. fst (harvest_plant cfg pos m) = Some item \<longrightarrow>
          new_calls g g' = [harvest_plant_call pos (Some item), add_item_call item]
          \<and> inventory (player (model g'))
              = Inventory_add (inventory (player m)) (fst item) (snd item))
     \<and> (fst (harvest_plant cfg pos m) = None \<longleftrightarrow>
          (case plants m pos of None \<Rightarrow> True | Some pl \<Rightarrow> \<not> is_harvestable cfg pl))"
proof -
  have n: "new_calls g g' = new_calls g (state_of (harvest_key cfg g))"
    unfolding g'_def by (simp add: new_calls_handle_keypress key_h)
  have mo: "model g' = model (state_of (harvest_key cfg g))"
    unfolding g'_def using handle_keypress_frame [of cfg "''h''" g] by (simp add: key_h)
  have 1: "new_calls g g' = [harvest_plant_call pos None]
        \<and> inventory (player (model g')) = inventory (player m)"
    if "fst (harvest_plant cfg pos m) = None"
    using that n mo harvest_key_eq [of cfg g] harvest_plant_player [of cfg pos m]
    unfolding m_def pos_def
    by (simp add: new_calls_issue model_issue)
  have 2: "new_calls g g' = [harvest_plant_call pos (Some item), add_item_call item]
          \<and> inventory (player (model g'))
              = Inventory_add (inventory (player m)) (fst item) (snd item)"
    if "fst (harvest_plant cfg pos m) = Some item" for item
    using that n mo harvest_key_eq [of cfg g]
    unfolding m_def pos_def
    by (simp add: new_calls_issue2 model_issue Player_add_item_def)
  from 1 2 harvest_plant_None [of cfg pos m] show ?thesis by blast
qed


theorem harvest_added_iff_not_None_witness:
  "fst (harvest_plant sample_config (0, 0) (model ripe_game)) = Some (''Potato'', 5)
   \<and> new_calls ripe_game (state_of (handle_keypress sample_config ''h'' ripe_game))
       = [harvest_plant_call (0, 0) (Some (''Potato'', 5)), add_item_call (''Potato'', 5)]
   \<and> inventory (player (model (state_of (handle_keypress sample_config ''h'' ripe_game))))
       = Inventory_add (inventory (player (model ripe_game))) ''Potato'' 5
   \<and> fst (harvest_plant sample_config (0, 0) (model sample_game)) = None
   \<and> new_calls sample_game (state_of (handle_keypress sample_config ''h'' sample_game))
       = [harvest_plant_call (0, 0) None]"
proof -
  have p: "position (player (model ripe_game)) = (0, 0)"
    "position (player (model sample_game)) = (0, 0)"
    by code_simp+
  have h: "fst (harvest_plant sample_config (0, 0) (model ripe_game)) = Some (''Potato'', 5)"
    "fst (harvest_plant sample_config (0, 0) (model sample_game)) = None"
    by code_simp+
  from harvest_added_iff_not_None [where cfg = sample_config and g = ripe_game]
       harvest_added_iff_not_None [where cfg = sample_config and g = sample_game] p h
  show ?thesis by simp
qed

subsection \<open>The unbound plant variable\<close>

lemma view_update_raises:
  "raised (view_update cfg key amount selected g) = Some e \<Longrightarrow> \<exists>t k. e = KeyError t k"
  by (auto simp: view_update_def ItemView_update_def item_label_text_def Let_def
           split: option.splits outcome.splits sum.splits)

lemma redraw_item_raises:
  "raised (redraw_item cfg name g) = Some e \<Longrightarrow> \<exists>t k. e = KeyError t k"
  by (auto simp: redraw_item_def split: option.splits if_splits dest: view_update_raises)

lemma redraw_items_raises:
  "raised (redraw_items cfg names g) = Some e \<Longrightarrow> \<exists>t k. e = KeyError t k"
proof (induction names arbitrary: g)
  case Nil
  then show ?case by simp
next
  case (Cons name names)
  show ?case
  proof (cases "redraw_item cfg name g")
    case (Returns g1)
    with Cons show ?thesis by simp
  next
    case (Raises e1 g1)
    with Cons.prems redraw_item_raises [of cfg name g e1] show ?thesis by simp
  qed
qed

lemma redraw_raises: "raised (redraw cfg g) = Some e \<Longrightarrow> \<exists>t k. e = KeyError t k"
  by (simp add: redraw_def redraw_items_raises)

lemma handle_keypress_raises:
  assumes "raised (handle_keypress cfg keysym g) = Some e"
  shows "raised (key_action cfg keysym g) = Some e \<or> (\<exists>t k. e = KeyError t k)"
proof (cases "key_action cfg keysym g")
  case (Returns g1)
  with assms redraw_raises [of cfg g1 e] show ?thesis by (simp add: handle_keypress_def)
next
  case (Raises e1 g1)
  with assms show ?thesis by (simp add: handle_keypress_def)
qed

lemma plant_key_raises_unbound:
  assumes "raised (plant_key cfg g) = Some UnboundLocalError"
  shows "\<exists>sel w. selected_item (player (model g)) = Some sel \<and> sel \<in> set (SEEDS cfg)
           \<and> sel \<in> dom (inventory (player (model g)))
           \<and> split_first sel = Inr w \<and> plant_for w = None"
proof (cases "map_char (model g) (position (player (model g))) = Inr (SOIL cfg)
              \<and> (\<exists>sel. selected_item (player (model g)) = Some sel
                     \<and> sel \<in> dom (inventory (player (model g)))
                     \<and> sel \<in> set (SEEDS cfg))")
  case False
  with assms show ?thesis using plant_key_unguarded [of g cfg] by blast
next
  case True
  then obtain sel where gd: "map_char (model g) (position (player (model g))) = Inr (SOIL cfg)"
    "selected_item (player (model g)) = Some sel"
    "sel \<in> dom (inventory (player (model g)))" "sel \<in> set (SEEDS cfg)"
    by blast
  show ?thesis
  proof (cases "split_first sel")
    case (Inl e)
    with gd assms show ?thesis using plant_key_no_word [of g cfg sel e] by simp
  next
    case (Inr w)
    show ?thesis
    proof (cases "plant_for w")
      case None
      with gd Inr show ?thesis by blast
    next
      case (Some pl)
      with gd Inr assms show ?thesis
        using plant_key_planting [of g cfg sel w pl] by (simp split: if_splits)
    qed
  qed
qed

text \<open>
  \<^verbatim>\<open>split()[0]\<close> at names with different separators, the no-break space among them.
\<close>

lemma split_first_examples:
  "split_first ''Potato Seed'' = Inr ''Potato''"
  "split_first (''Potato'' @ [CHR 0xA0] @ ''Seed'') = Inr ''Potato''"
  "split_first (''Kale'' @ [CHR 0x85] @ ''Seed'') = Inr ''Kale''"
  "split_first ([CHR 0x09, CHR 0x20] @ ''Berry'' @ [CHR 0x0A]) = Inr ''Berry''"
  "split_first ''PotatoSeed'' = Inr ''PotatoSeed''"
  "split_first [CHR 0x20, CHR 0xA0] = Inl IndexError"
  by (simp_all add: split_first_def is_space_def)

text \<open>
  Claim C9. In the \<^verbatim>\<open>'p'\<close> branch the variable \<^verbatim>\<open>plant\<close> is bound exactly when the first
  word of the selected seed's name (\<^verbatim>\<open>split()[0]\<close>) is \<^verbatim>\<open>Potato\<close>, \<^verbatim>\<open>Kale\<close> or \<^verbatim>\<open>Berry\<close>.
  When the first word of every element of \<^verbatim>\<open>SEEDS\<close> is one of the three, no \<^verbatim>\<open>'p'\<close>
  keypress raises \<^verbatim>\<open>UnboundLocalError\<close>. With the seed name \<^verbatim>\<open>Carrot Seed\<close> in \<^verbatim>\<open>SEEDS\<close>,
  held and selected on a \<^verbatim>\<open>SOIL\<close> tile, the keypress raises it (and changes nothing).
\<close>

theorem plant_unbound:
  "(plant_for w \<noteq> None \<longleftrightarrow> w = ''Potato'' \<or> w = ''Kale'' \<or> w = ''Berry'')
   \<and> ((\<forall>s \<in> set (SEEDS cfg). \<exists>w. split_first s = Inr w
           \<and> (w = ''Potato'' \<or> w = ''Kale'' \<or> w = ''Berry'')) \<longrightarrow>
        raised (handle_keypress cfg ''p'' g) \<noteq> Some UnboundLocalError)
   \<and> raised (handle_keypress carrot_config ''p'' carrot_game) = Some UnboundLocalError
   \<and> state_of (handle_keypress carrot_config ''p'' carrot_game) = carrot_game"
proof -
  have a: "plant_for w \<noteq> None \<longleftrightarrow> w = ''Potato'' \<or> w = ''Kale'' \<or> w = ''Berry''" for w
    by (simp add: plant_for_def)
  have b: "raised (handle_keypress cfg ''p'' g) \<noteq> Some UnboundLocalError"
    if s: "\<forall>s \<in> set (SEEDS cfg). \<exists>w. split_first s = Inr w
           \<and> (w = ''Potato'' \<or> w = ''Kale'' \<or> w = ''Berry'')"
  proof
    assume "raised (handle_keypress cfg ''p'' g) = Some UnboundLocalError"
    then have "raised (plant_key cfg g) = Some UnboundLocalError"
      using handle_keypress_raises [of cfg "''p''" g UnboundLocalError] by (simp add: key_p)
    then obtain sel w where "sel \<in> set (SEEDS cfg)" "split_first sel = Inr w" "plant_for w = None"
      using plant_key_raises_unbound [of cfg g] by blast
    with s a [of w] show False by force
  qed
  have gd: "map_char (model carrot_game) (position (player (model carrot_game)))
               = Inr (SOIL carrot_config)"
    "selected_item (player (model carrot_game)) = Some ''Carrot Seed''"
    "''Carrot Seed'' \<in> dom (inventory (player (model carrot_game)))"
    "''Carrot Seed'' \<in> set (SEEDS carrot_config)"
    "split_first ''Carrot Seed'' = Inr ''Carrot''"
    "plant_for ''Carrot'' = None"
    by code_simp+
  have c: "raised (handle_keypress carrot_config ''p'' carrot_game) = Some UnboundLocalError
     \<and> state_of (handle_keypress carrot_config ''p'' carrot_game) = carrot_game"
    using plant_key_unbound [OF gd]
    by (simp add: handle_keypress_def key_p)
  from a b c show ?thesis by blast
qed


theorem plant_unbound_witness:
  "raised (handle_keypress sample_config ''p'' sample_game) \<noteq> Some UnboundLocalError
   \<and> raised (handle_keypress nbsp_config ''p'' nbsp_game) \<noteq> Some UnboundLocalError
   \<and> add_plant_call (0, 0) PotatoPlant True
       \<in> set (new_calls nbsp_game (state_of (handle_keypress nbsp_config ''p'' nbsp_game)))
   \<and> plant_for ''Kale'' \<noteq> None
   \<and> raised (handle_keypress carrot_config ''p'' carrot_game) = Some UnboundLocalError"
proof -
  have s: "\<forall>s \<in> set (SEEDS sample_config). \<exists>w. split_first s = Inr w
           \<and> (w = ''Potato'' \<or> w = ''Kale'' \<or> w = ''Berry'')"
    by (simp add: sample_config_def split_first_def is_space_def)
  have n: "\<forall>s \<in> set (SEEDS nbsp_config). \<exists>w. split_first s = Inr w
           \<and> (w = ''Potato'' \<or> w = ''Kale'' \<or> w = ''Berry'')"
    by (simp add: nbsp_config_def nbsp_seed_def sample_config_def split_first_def is_space_def)
  have c: "add_plant_call (0, 0) PotatoPlant True
       \<in> set (new_calls nbsp_game (state_of (handle_keypress nbsp_config ''p'' nbsp_game)))"
    by code_simp
  from plant_unbound [of "''Kale''" sample_config sample_game]
       plant_unbound [of "''Kale''" nbsp_config nbsp_game] s n c
  show ?thesis by blast
qed

subsection \<open>Planting and the seed\<close>

lemma remove_one_held:
  assumes "1 \<le> holding (inventory p) sel"
  shows "inventory (snd (Player_remove_item (sel, 1) p))
           = (inventory p)(sel \<mapsto> holding (inventory p) sel - 1)"
  using assms by (simp add: Player_remove_item_def Inventory_remove_def)

text \<open>
  The sequencing of the \<^verbatim>\<open>'p'\<close> branch as the code has it. The controller issues no
  call, or \<^verbatim>\<open>add_plant\<close> alone when it returned \<^verbatim>\<open>False\<close>, or \<^verbatim>\<open>add_plant\<close> followed by
  one \<^verbatim>\<open>remove_item((selected item, 1))\<close> when it returned \<^verbatim>\<open>True\<close>: the removal is called
  exactly when the preceding \<^verbatim>\<open>add_plant\<close> at the player's position returned \<^verbatim>\<open>True\<close>, and
  never before it. When \<^verbatim>\<open>add_plant\<close> was not called or did not return \<^verbatim>\<open>True\<close> the
  inventory is unchanged. When it returned \<^verbatim>\<open>True\<close> and the inventory holds at least one
  unit of the selected seed, exactly one unit of it is removed.
\<close>

lemma seed_removed_after_add_plant:
  fixes cfg :: config and g :: game
  defines "m \<equiv> model g"
  defines "pos \<equiv> position (player (model g))"
  defines "g' \<equiv> state_of (handle_keypress cfg ''p'' g)"
  shows
    "(new_calls g g' = []
        \<or> (\<exists>pl. new_calls g g' = [add_plant_call pos pl False]
                \<and> fst (add_plant pos pl m) = False)
        \<or> (\<exists>pl sel r. new_calls g g' = [add_plant_call pos pl True, remove_item_call (sel, 1) r]
                \<and> fst (add_plant pos pl m) = True
                \<and> selected_item (player m) = Some sel))
     \<and> ((\<forall>pl. add_plant_call pos pl True \<notin> set (new_calls g g')) \<longrightarrow>
          inventory (player (model g')) = inventory (player m))
     \<and> (\<forall>pl sel. add_plant_call pos pl True \<in> set (new_calls g g')
            \<and> selected_item (player m) = Some sel
            \<and> 1 \<le> holding (inventory (player m)) sel \<longrightarrow>
          inventory (player (model g'))
            = (inventory (player m))(sel \<mapsto> holding (inventory (player m)) sel - 1))"
proof -
  have n: "new_calls g g' = new_calls g (state_of (plant_key cfg g))"
    unfolding g'_def by (simp add: new_calls_handle_keypress key_p)
  have mo: "model g' = model (state_of (plant_key cfg g))"
    unfolding g'_def using handle_keypress_frame [of cfg "''p''" g] by (simp add: key_p)
  show ?thesis
  proof (cases "state_of (plant_key cfg g) = g")
    case True
    with n mo show ?thesis by (simp add: new_calls_same m_def)
  next
    case False
    with plant_key_cases [of cfg g] obtain sel w pl where
      gd: "map_char (model g) (position (player (model g))) = Inr (SOIL cfg)"
        "selected_item (player (model g)) = Some sel"
        "sel \<in> dom (inventory (player (model g)))" "sel \<in> set (SEEDS cfg)"
        "split_first sel = Inr w" "plant_for w = Some pl"
      by blast
    note pk = plant_key_planting [OF gd]
    show ?thesis
    proof (cases "fst (add_plant pos pl m)")
      case True
      with pk n mo
      have c: "new_calls g g' = [add_plant_call pos pl True,
                 remove_item_call (sel, 1) (fst (Player_remove_item (sel, 1) (player m)))]"
        and i: "inventory (player (model g'))
                  = inventory (snd (Player_remove_item (sel, 1) (player m)))"
        unfolding m_def pos_def by (simp_all add: new_calls_issue2 model_issue)
      from c True gd(2) have 1: "\<exists>pl sel r.
          new_calls g g' = [add_plant_call pos pl True, remove_item_call (sel, 1) r]
          \<and> fst (add_plant pos pl m) = True \<and> selected_item (player m) = Some sel"
        unfolding m_def by blast
      from c have 2: "\<not> (\<forall>pl. add_plant_call pos pl True \<notin> set (new_calls g g'))"
        by auto
      have 3: "inventory (player (model g'))
            = (inventory (player m))(sel' \<mapsto> holding (inventory (player m)) sel' - 1)"
        if "selected_item (player m) = Some sel'" "1 \<le> holding (inventory (player m)) sel'"
        for sel'
        using that gd(2) i remove_one_held [of "player m" sel'] unfolding m_def by simp
      from 1 2 3 show ?thesis by blast
    next
      case False
      with pk n mo
      have c: "new_calls g g' = [add_plant_call pos pl False]"
        and i: "inventory (player (model g')) = inventory (player m)"
        unfolding m_def pos_def
        using add_plant_player [of "position (player (model g))" pl "model g"]
        by (simp_all add: new_calls_issue model_issue)
      from c False i show ?thesis by auto
    qed
  qed
qed

lemma seed_removed_after_add_plant_at_sample:
  "add_plant_call (0, 0) PotatoPlant True
     \<in> set (new_calls sample_game (state_of (handle_keypress sample_config ''p'' sample_game)))
   \<and> inventory (player (model (state_of (handle_keypress sample_config ''p'' sample_game))))
       = (inventory (player (model sample_game)))(''Potato Seed'' \<mapsto> 0)"
proof -
  have c: "add_plant_call (position (player (model sample_game))) PotatoPlant True
     \<in> set (new_calls sample_game (state_of (handle_keypress sample_config ''p'' sample_game)))"
    by code_simp
  have p: "position (player (model sample_game)) = (0, 0)"
    by code_simp
  have s: "selected_item (player (model sample_game)) = Some ''Potato Seed''"
    by code_simp
  have h: "holding (inventory (player (model sample_game))) ''Potato Seed'' = 1"
    by code_simp
  from seed_removed_after_add_plant [where cfg = sample_config and g = sample_game] c s h
  have "inventory (player (model (state_of (handle_keypress sample_config ''p'' sample_game))))
       = (inventory (player (model sample_game)))(''Potato Seed'' \<mapsto>
            holding (inventory (player (model sample_game))) ''Potato Seed'' - 1)"
    by (metis le_refl)
  with c p h show ?thesis by simp
qed

text \<open>
  Claim C1 says that exactly one unit of the selected seed is removed whenever
  \<^verbatim>\<open>add_plant\<close> returned \<^verbatim>\<open>True\<close>. The branch means to do so ("Check the selected item is a
  seed and it is in the inventory", "remove seed from inventory if successful"), but its
  guard \<^verbatim>\<open>in inventory\<close> lets an entry with count 0 through, which the inventory keeps
  once the last unit is removed. In \<open>zero_game\<close> (the sample game after the keys \<^verbatim>\<open>p\<close>,
  which plants the only potato seed, and \<^verbatim>\<open>r\<close>, which removes the plant) a second \<^verbatim>\<open>'p'\<close>
  passes the guard, \<^verbatim>\<open>add_plant\<close> returns \<^verbatim>\<open>True\<close>, \<^verbatim>\<open>remove_item\<close> fails, and the plant
  stands while the count is 0 as before: no unit was removed.
\<close>

theorem seed_not_removed_at_zero_holding:
  "new_calls zero_game (state_of (handle_keypress sample_config ''p'' zero_game))
       = [add_plant_call (0, 0) PotatoPlant True, remove_item_call (''Potato Seed'', 1) False]
   \<and> selected_item (player (model zero_game)) = Some ''Potato Seed''
   \<and> inventory (player (model zero_game)) ''Potato Seed'' = Some 0
   \<and> inventory (player (model (state_of (handle_keypress sample_config ''p'' zero_game))))
        ''Potato Seed'' = Some 0
   \<and> plants (model (state_of (handle_keypress sample_config ''p'' zero_game))) (0, 0)
       = Some PotatoPlant"
  by code_simp

lemma add_plant_succeeds_at_zero_holding:
  "fst (add_plant (0, 0) PotatoPlant (model zero_game)) = True"
  by code_simp

subsection \<open>The wiring of the views\<close>

lemma ItemView_update_wiring:
  "item_name (state_of (ItemView_update cfg amount selected v)) = item_name v
   \<and> has_buy_button (state_of (ItemView_update cfg amount selected v)) = has_buy_button v"
  by (simp add: ItemView_update_def Let_def split: sum.splits)

lemma view_update_wiring:
  "wiring (state_of (view_update cfg key amount selected g)) = wiring g"
proof (cases "item_dict g key")
  case None
  then show ?thesis by (simp add: view_update_def)
next
  case (Some v)
  have "wiring (g\<lparr> item_dict := (item_dict g)(key \<mapsto> state_of (ItemView_update cfg amount selected v)) \<rparr>)
          = wiring g"
    using Some ItemView_update_wiring [of cfg amount selected v]
    by (auto simp: wiring_def fun_eq_iff)
  with Some show ?thesis
    by (cases "ItemView_update cfg amount selected v") (simp_all add: view_update_def)
qed

lemma redraw_item_wiring: "wiring (state_of (redraw_item cfg name g)) = wiring g"
  by (simp add: redraw_item_def view_update_wiring split: option.splits)

lemma redraw_items_wiring: "wiring (state_of (redraw_items cfg names g)) = wiring g"
proof (induction names arbitrary: g)
  case Nil
  then show ?case by simp
next
  case (Cons name names)
  show ?case
  proof (cases "redraw_item cfg name g")
    case (Returns g1)
    with Cons [of g1] redraw_item_wiring [of cfg name g] show ?thesis by simp
  next
    case (Raises e g1)
    with redraw_item_wiring [of cfg name g] show ?thesis by simp
  qed
qed

lemma redraw_wiring: "wiring (state_of (redraw cfg g)) = wiring g"
  by (simp add: redraw_def redraw_items_wiring)

lemma wiring_issue: "wiring (issue c m g) = wiring g"
  by (simp add: wiring_def issue_def fun_eq_iff)

lemma plant_key_wiring: "wiring (state_of (plant_key cfg g)) = wiring g"
  by (simp add: plant_key_def Let_def wiring_issue split: sum.splits option.splits prod.splits)

lemma harvest_key_wiring: "wiring (state_of (harvest_key cfg g)) = wiring g"
  by (simp add: harvest_key_def Let_def wiring_issue split: option.splits prod.splits)

lemma key_action_wiring: "wiring (state_of (key_action cfg keysym g)) = wiring g"
  by (simp add: key_action_def Let_def wiring_issue plant_key_wiring harvest_key_wiring
           split: prod.splits)

lemma and_then_wiring:
  assumes "wiring (state_of a) = wiring g"
    and "\<And>s. wiring (state_of (f s)) = wiring s"
  shows "wiring (state_of (and_then a f)) = wiring g"
  using assms by (cases a) simp_all

lemma handle_keypress_wiring: "wiring (state_of (handle_keypress cfg keysym g)) = wiring g"
  unfolding handle_keypress_def
  by (rule and_then_wiring) (simp_all add: key_action_wiring redraw_wiring)

lemma new_day_redraw_wiring: "wiring (state_of (new_day_redraw cfg g)) = wiring g"
  by (simp add: new_day_redraw_def redraw_wiring wiring_issue)

lemma buy_item_wiring: "wiring (state_of (buy_item cfg name g)) = wiring g"
  by (simp add: buy_item_def redraw_wiring wiring_issue split: option.splits prod.splits)

lemma sell_item_wiring: "wiring (state_of (sell_item cfg name g)) = wiring g"
  by (simp add: sell_item_def redraw_wiring wiring_issue split: option.splits prod.splits)

lemma unselect_previous_wiring: "wiring (state_of (unselect_previous cfg g)) = wiring g"
  by (simp add: unselect_previous_def view_update_wiring split: option.splits)

lemma select_new_wiring: "wiring (state_of (select_new cfg name g)) = wiring g"
  by (simp add: select_new_def Let_def view_update_wiring wiring_issue split: option.splits)

lemma select_item_wiring: "wiring (state_of (FarmGame_select_item cfg name g)) = wiring g"
  unfolding FarmGame_select_item_def
  by (rule and_then_wiring) (simp_all add: unselect_previous_wiring select_new_wiring)

lemma dispatch_wiring: "wiring (state_of (dispatch cfg ev g)) = wiring g"
  by (cases ev)
     (simp_all add: handle_keypress_wiring new_day_redraw_wiring buy_item_wiring
        sell_item_wiring select_item_wiring split: option.splits)

lemma run_events_wiring: "run_events cfg evs g = Some g' \<Longrightarrow> wiring g' = wiring g"
proof (induction evs arbitrary: g)
  case Nil
  then show ?case by simp
next
  case (Cons ev evs)
  then show ?case
    using dispatch_wiring [of cfg ev g] by (auto split: if_splits)
qed

lemma wired_cong: "wiring g' = wiring g \<Longrightarrow> wired cfg g' = wired cfg g"
  by (simp add: wired_def)

lemma run_events_wired: "run_events cfg evs g = Some g' \<Longrightarrow> wired cfg g \<Longrightarrow> wired cfg g'"
  using run_events_wiring [of cfg evs g g'] wired_cong [of g' g cfg] by simp

subsection \<open>What a wired controller cannot raise\<close>

lemma ItemView_update_returns:
  assumes "item_name v \<in> dom (SELL_PRICES cfg)"
  shows "raised (ItemView_update cfg amount selected v) = None"
  using assms by (auto simp: ItemView_update_def item_label_text_def Let_def)

lemma wired_view:
  assumes "wired cfg g" and "item_dict g key = Some v"
  shows "item_name v = key \<and> key \<in> set (ITEMS cfg) \<and> key \<in> dom (SELL_PRICES cfg)
         \<and> (has_buy_button v \<longleftrightarrow> key \<in> dom (BUY_PRICES cfg))"
proof -
  from assms(1) have w: "wiring g key =
      (if key \<in> set (ITEMS cfg) then Some (key, key \<in> dom (BUY_PRICES cfg)) else None)"
    and c: "\<forall>key \<in> set (ITEMS cfg). key \<in> dom (SELL_PRICES cfg)"
    by (simp_all add: wired_def)
  from w assms(2) have "key \<in> set (ITEMS cfg)"
    by (auto simp: wiring_def split: if_splits)
  with w c assms(2) show ?thesis by (auto simp: wiring_def)
qed

lemma wired_has_view:
  assumes "wired cfg g" and "key \<in> set (ITEMS cfg)"
  shows "\<exists>v. item_dict g key = Some v"
proof -
  from assms have "wiring g key = Some (key, key \<in> dom (BUY_PRICES cfg))"
    by (simp add: wired_def)
  then show ?thesis by (auto simp: wiring_def)
qed

lemma view_update_wired:
  assumes "wired cfg g"
  shows "raised (view_update cfg key amount selected g)
           = (if key \<in> set (ITEMS cfg) then None else Some (KeyError item_dict_table key))"
proof (cases "item_dict g key")
  case None
  with assms wired_has_view [of cfg g key] show ?thesis
    by (auto simp: view_update_def)
next
  case (Some v)
  with assms wired_view [of cfg g key v]
  have k: "key \<in> set (ITEMS cfg)" and "item_name v \<in> dom (SELL_PRICES cfg)" by auto
  then have "raised (ItemView_update cfg amount selected v) = None"
    using ItemView_update_returns by blast
  with Some k show ?thesis
    by (cases "ItemView_update cfg amount selected v") (simp_all add: view_update_def)
qed

lemma redraw_item_wired:
  assumes "wired cfg g" and "name \<in> set (ITEMS cfg)"
  shows "raised (redraw_item cfg name g) = None"
  using assms by (simp add: redraw_item_def view_update_wired split: option.splits)

lemma redraw_items_wired:
  assumes "wired cfg g" and "set names \<subseteq> set (ITEMS cfg)"
  shows "raised (redraw_items cfg names g) = None"
  using assms
proof (induction names arbitrary: g)
  case Nil
  then show ?case by simp
next
  case (Cons name names)
  from Cons.prems have r: "raised (redraw_item cfg name g) = None"
    using redraw_item_wired [of cfg g name] by simp
  then obtain g1 where g1: "redraw_item cfg name g = Returns g1"
    by (cases "redraw_item cfg name g") simp_all
  then have "wiring g1 = wiring g"
    using redraw_item_wiring [of cfg name g] by simp
  with Cons.prems have "wired cfg g1" using wired_cong [of g1 g cfg] by simp
  with Cons g1 show ?case by simp
qed

lemma redraw_wired: "wired cfg g \<Longrightarrow> raised (redraw cfg g) = None"
  by (simp add: redraw_def redraw_items_wired)

lemma wired_issue: "wired cfg (issue c m g) = wired cfg g"
  using wired_cong [of "issue c m g" g cfg] by (simp add: wiring_issue)

lemma plant_key_unguarded_raised:
  assumes "\<not> (map_char (model g) (position (player (model g))) = Inr (SOIL cfg)
              \<and> (\<exists>sel. selected_item (player (model g)) = Some sel
                     \<and> sel \<in> dom (inventory (player (model g)))
                     \<and> sel \<in> set (SEEDS cfg)))"
  shows "raised (plant_key cfg g) = None \<or> raised (plant_key cfg g) = Some IndexError"
  using assms
  by (auto simp: plant_key_def Let_def split: sum.splits option.splits dest: map_char_error)

lemma plant_key_raises:
  assumes "raised (plant_key cfg g) = Some e"
  shows "e = IndexError \<or> e = UnboundLocalError"
proof (cases "map_char (model g) (position (player (model g))) = Inr (SOIL cfg)
              \<and> (\<exists>sel. selected_item (player (model g)) = Some sel
                     \<and> sel \<in> dom (inventory (player (model g)))
                     \<and> sel \<in> set (SEEDS cfg))")
  case False
  with assms show ?thesis using plant_key_unguarded_raised [of g cfg] by auto
next
  case True
  then obtain sel where gd: "map_char (model g) (position (player (model g))) = Inr (SOIL cfg)"
    "selected_item (player (model g)) = Some sel"
    "sel \<in> dom (inventory (player (model g)))" "sel \<in> set (SEEDS cfg)"
    by blast
  show ?thesis
  proof (cases "split_first sel")
    case (Inl e1)
    with gd assms show ?thesis using plant_key_no_word [of g cfg sel e1] by simp
  next
    case (Inr w)
    show ?thesis
    proof (cases "plant_for w")
      case None
      with gd Inr assms show ?thesis using plant_key_unbound [of g cfg sel w] by simp
    next
      case (Some pl)
      with gd Inr assms show ?thesis
        using plant_key_planting [of g cfg sel w pl] by (simp split: if_splits)
    qed
  qed
qed

lemma harvest_key_returns: "raised (harvest_key cfg g) = None"
  by (simp add: harvest_key_def Let_def split: option.splits prod.splits)

lemma key_action_other:
  "keysym \<noteq> ''p'' \<Longrightarrow> raised (key_action cfg keysym g) = None"
  by (simp add: key_action_def Let_def harvest_key_returns split: prod.splits)

lemma key_action_raises:
  assumes "raised (key_action cfg keysym g) = Some e"
  shows "e = IndexError \<or> e = UnboundLocalError"
proof (cases "keysym = ''p''")
  case True
  with assms plant_key_raises [of cfg g e] show ?thesis by (simp add: key_p)
next
  case False
  with assms key_action_other [of keysym cfg g] show ?thesis by simp
qed

lemma key_action_no_price_error: "\<not> price_key_error (raised (key_action cfg keysym g))"
proof (cases "raised (key_action cfg keysym g)")
  case None
  then show ?thesis by (simp add: price_key_error_def)
next
  case (Some e)
  with key_action_raises [of cfg keysym g e] show ?thesis
    by (auto simp: price_key_error_def)
qed

lemma handle_keypress_no_price_error:
  assumes "wired cfg g"
  shows "\<not> price_key_error (raised (handle_keypress cfg keysym g))"
proof (cases "key_action cfg keysym g")
  case (Returns g1)
  then have "wiring g1 = wiring g" using key_action_wiring [of cfg keysym g] by simp
  with assms have "wired cfg g1" using wired_cong [of g1 g cfg] by simp
  with Returns show ?thesis
    by (simp add: handle_keypress_def redraw_wired price_key_error_def)
next
  case (Raises e g1)
  with key_action_no_price_error [of cfg keysym g] show ?thesis
    by (simp add: handle_keypress_def)
qed

lemma buy_item_wired:
  assumes "wired cfg g" and "name \<in> dom (BUY_PRICES cfg)"
  shows "raised (buy_item cfg name g) = None"
  using assms
  by (auto simp: buy_item_def redraw_wired wired_issue split: prod.splits)

lemma sell_item_wired:
  assumes "wired cfg g" and "name \<in> set (ITEMS cfg)"
  shows "raised (sell_item cfg name g) = None"
proof -
  from assms have "name \<in> dom (SELL_PRICES cfg)" by (simp add: wired_def)
  with assms(1) show ?thesis
    by (auto simp: sell_item_def redraw_wired wired_issue split: prod.splits)
qed

lemma new_day_redraw_wired: "wired cfg g \<Longrightarrow> raised (new_day_redraw cfg g) = None"
  by (simp add: new_day_redraw_def redraw_wired wired_issue)

lemma price_key_error_None: "\<not> price_key_error None"
  by (simp add: price_key_error_def)

lemma view_update_no_price_error:
  "wired cfg g \<Longrightarrow> \<not> price_key_error (raised (view_update cfg key amount selected g))"
  by (simp add: view_update_wired price_key_error_def)

lemma unselect_previous_no_price_error:
  "wired cfg g \<Longrightarrow> \<not> price_key_error (raised (unselect_previous cfg g))"
  by (simp add: unselect_previous_def view_update_no_price_error price_key_error_None
           split: option.splits)

lemma select_new_no_price_error:
  assumes "wired cfg g"
  shows "\<not> price_key_error (raised (select_new cfg name g))"
proof -
  have "wired cfg (issue (select_item_call name)
          ((model g)\<lparr> player := Player_select_item name (player (model g)) \<rparr>) g)"
    using assms by (simp add: wired_issue)
  then show ?thesis
    by (simp add: select_new_def Let_def view_update_no_price_error price_key_error_None
             split: option.splits)
qed

lemma select_item_no_price_error:
  assumes "wired cfg g"
  shows "\<not> price_key_error (raised (FarmGame_select_item cfg name g))"
proof (cases "unselect_previous cfg g")
  case (Raises e g1)
  with unselect_previous_no_price_error [OF assms] show ?thesis
    by (simp add: FarmGame_select_item_def)
next
  case (Returns g1)
  then have "wiring g1 = wiring g" using unselect_previous_wiring [of cfg g] by simp
  with assms have w: "wired cfg g1" using wired_cong [of g1 g cfg] by simp
  with Returns select_new_no_price_error [of cfg g1 name] show ?thesis
    by (simp add: FarmGame_select_item_def)
qed

lemma dispatch_no_price_error:
  assumes "wired cfg g" and "event_possible g ev"
  shows "\<not> price_key_error (raised (dispatch cfg ev g))"
proof (cases ev)
  case (KeyPress keysym)
  with assms show ?thesis by (simp add: handle_keypress_no_price_error)
next
  case NextDayButton
  with assms show ?thesis by (simp add: new_day_redraw_wired price_key_error_def)
next
  case (BuyButton key)
  with assms obtain v where v: "item_dict g key = Some v" "has_buy_button v"
    by (auto split: option.splits)
  with assms wired_view [of cfg g key v] have "item_name v \<in> dom (BUY_PRICES cfg)" by simp
  with assms v BuyButton show ?thesis by (simp add: buy_item_wired price_key_error_def)
next
  case (SellButton key)
  with assms obtain v where v: "item_dict g key = Some v" by auto
  with assms wired_view [of cfg g key v] have "item_name v \<in> set (ITEMS cfg)" by simp
  with assms v SellButton show ?thesis by (simp add: sell_item_wired price_key_error_def)
next
  case (LeftClick key)
  with assms obtain v where v: "item_dict g key = Some v" by auto
  with assms LeftClick show ?thesis by (simp add: select_item_no_price_error)
qed

subsection \<open>The constructor wires the controller\<close>

lemma wiring_insert:
  "wiring (g\<lparr> item_dict := (item_dict g)(name \<mapsto> v) \<rparr>)
     = (wiring g)(name \<mapsto> (item_name v, has_buy_button v))"
  by (auto simp: wiring_def fun_eq_iff)

lemma ItemView_init_Inr:
  assumes "ItemView_init cfg name amount = Inr v"
  shows "item_name v = name \<and> has_buy_button v = (name \<in> dom (BUY_PRICES cfg))
         \<and> name \<in> dom (SELL_PRICES cfg)"
  using assms
  by (auto simp: ItemView_init_def item_label_text_def split: sum.splits option.splits)

lemma ItemView_init_returns:
  assumes "name \<in> dom (SELL_PRICES cfg)"
  shows "\<exists>v. ItemView_init cfg name amount = Inr v"
  using assms by (auto simp: ItemView_init_def item_label_text_def)

lemma view_update_present:
  assumes "item_dict g key = Some v" and "item_name v \<in> dom (SELL_PRICES cfg)"
  shows "\<exists>g2. view_update cfg key amount selected g = Returns g2"
proof -
  from assms(2) have "raised (ItemView_update cfg amount selected v) = None"
    by (rule ItemView_update_returns)
  then obtain v' where "ItemView_update cfg amount selected v = Returns v'"
    by (cases "ItemView_update cfg amount selected v") simp_all
  with assms(1) show ?thesis by (simp add: view_update_def)
qed

text \<open>What the loop of the constructor has built when it returns.\<close>

lemma init_items_wiring:
  assumes "init_items cfg names g = Inr g'"
  shows "(\<forall>key. wiring g' key =
            (if key \<in> set names then Some (key, key \<in> dom (BUY_PRICES cfg)) else wiring g key))
         \<and> (\<forall>key \<in> set names. key \<in> dom (SELL_PRICES cfg))"
  using assms
proof (induction names arbitrary: g)
  case Nil
  then show ?case by simp
next
  case (Cons name names)
  from Cons.prems obtain v where v: "ItemView_init cfg name 0 = Inr v"
    by (auto split: sum.splits)
  define g1 where "g1 = g\<lparr> item_dict := (item_dict g)(name \<mapsto> v) \<rparr>"
  have w1: "wiring g1 = (wiring g)(name \<mapsto> (name, name \<in> dom (BUY_PRICES cfg)))"
    and s: "name \<in> dom (SELL_PRICES cfg)"
    using ItemView_init_Inr [OF v] by (simp_all add: g1_def wiring_insert)
  from Cons.prems v obtain g2 where g2: "init_items cfg names g2 = Inr g'"
    and w2: "wiring g2 = wiring g1"
  proof (cases "inventory (player (model g1)) name")
    case None
    with Cons.prems v have "init_items cfg names g1 = Inr g'"
      by (simp add: g1_def Let_def)
    then show ?thesis using that by simp
  next
    case (Some amount)
    show ?thesis
    proof (cases "view_update cfg name (int amount) False g1")
      case (Returns g2)
      with Cons.prems v Some have "init_items cfg names g2 = Inr g'"
        by (simp add: g1_def Let_def)
      moreover have "wiring g2 = wiring g1"
        using view_update_wiring [of cfg name "int amount" False g1] Returns by simp
      ultimately show ?thesis using that by simp
    next
      case (Raises e g2)
      with Cons.prems v Some show ?thesis by (simp add: g1_def Let_def)
    qed
  qed
  from Cons.IH [OF g2] w2 w1 s show ?case by auto
qed

lemma init_items_returns:
  assumes "\<forall>key \<in> set names. key \<in> dom (SELL_PRICES cfg)"
  shows "\<exists>g'. init_items cfg names g = Inr g'"
  using assms
proof (induction names arbitrary: g)
  case Nil
  then show ?case by simp
next
  case (Cons name names)
  then have s: "name \<in> dom (SELL_PRICES cfg)" by simp
  then obtain v where v: "ItemView_init cfg name 0 = Inr v"
    using ItemView_init_returns [of name cfg 0] by blast
  define g1 where "g1 = g\<lparr> item_dict := (item_dict g)(name \<mapsto> v) \<rparr>"
  have n: "item_dict g1 name = Some v" "item_name v \<in> dom (SELL_PRICES cfg)"
    using ItemView_init_Inr [OF v] s by (simp_all add: g1_def)
  from Cons have ih: "\<exists>g'. init_items cfg names h = Inr g'" for h by simp
  show ?case
  proof (cases "inventory (player (model g1)) name")
    case None
    with v ih [of g1] show ?thesis by (simp add: g1_def Let_def)
  next
    case (Some amount)
    from view_update_present [OF n] obtain g2
      where "view_update cfg name (int amount) False g1 = Returns g2" by blast
    with v Some ih [of g2] show ?thesis by (simp add: g1_def Let_def)
  qed
qed

lemma FarmGame_init_wired:
  assumes "FarmGame_init cfg m = Inr g"
  shows "wired cfg g"
proof -
  have "wiring \<lparr> model = m, item_dict = Map.empty, calls = [] \<rparr> key = None" for key
    by (simp add: wiring_def)
  with init_items_wiring [of cfg "ITEMS cfg" "\<lparr> model = m, item_dict = Map.empty, calls = [] \<rparr>" g]
    assms show ?thesis
    by (simp add: FarmGame_init_def wired_def)
qed

lemma FarmGame_init_returns:
  assumes "\<forall>key \<in> set (ITEMS cfg). key \<in> dom (SELL_PRICES cfg)"
  shows "\<exists>g. FarmGame_init cfg m = Inr g"
  using assms by (simp add: FarmGame_init_def init_items_returns)

subsection \<open>Price-table lookups\<close>

lemma reachable_wired:
  assumes "FarmGame_init cfg m0 = Inr g0" and "run_events cfg evs g0 = Some g"
  shows "wired cfg g"
  using assms FarmGame_init_wired [of cfg m0 g0] run_events_wired [of cfg evs g0 g] by blast

lemma buy_item_unguarded:
  "name \<notin> dom (BUY_PRICES cfg) \<Longrightarrow>
     buy_item cfg name g = Raises (KeyError BUY_PRICES_table name) g"
  by (auto simp: buy_item_def split: option.splits)

lemma sell_item_unguarded:
  "name \<notin> dom (SELL_PRICES cfg) \<Longrightarrow>
     sell_item cfg name g = Raises (KeyError SELL_PRICES_table name) g"
  by (auto simp: sell_item_def split: option.splits)

lemma buy_button_wired:
  assumes "wired cfg g" and "event_possible g (BuyButton key)"
  shows "key \<in> dom (BUY_PRICES cfg)
         \<and> dispatch cfg (BuyButton key) g = buy_item cfg key g
         \<and> raised (buy_item cfg key g) = None"
proof -
  from assms(2) obtain v where v: "item_dict g key = Some v" "has_buy_button v"
    by (auto split: option.splits)
  with assms(1) wired_view [of cfg g key v]
  have k: "item_name v = key" "key \<in> dom (BUY_PRICES cfg)" by simp_all
  with v assms(1) buy_item_wired [of cfg g key] show ?thesis by simp
qed

lemma sell_button_wired:
  assumes "wired cfg g" and "event_possible g (SellButton key)"
  shows "key \<in> dom (SELL_PRICES cfg)
         \<and> dispatch cfg (SellButton key) g = sell_item cfg key g
         \<and> raised (sell_item cfg key g) = None"
proof -
  from assms(2) obtain v where v: "item_dict g key = Some v" by auto
  with assms(1) wired_view [of cfg g key v]
  have k: "item_name v = key" "key \<in> set (ITEMS cfg)" "key \<in> dom (SELL_PRICES cfg)"
    by simp_all
  with v assms(1) sell_item_wired [of cfg g key] show ?thesis by simp
qed

text \<open>
  Claim C6. Every price-table lookup of the controller is within the table's keys.
  \<^item> The lookup \<^verbatim>\<open>BUY_PRICES[item_name]\<close> of \<^verbatim>\<open>buy_item\<close> is unguarded: called with a name
    outside the table it raises \<^verbatim>\<open>KeyError\<close>.
  \<^item> In every state reached from the constructor by events the window can deliver, a
    Buy button exists only for a key of \<^verbatim>\<open>BUY_PRICES\<close>; it calls \<^verbatim>\<open>buy_item\<close> with that
    key, which does not raise.
  \<^item> When \<^verbatim>\<open>SELL_PRICES\<close> covers every name of \<^verbatim>\<open>ITEMS\<close>: the constructor (which builds
    every \<^verbatim>\<open>ItemView\<close>) returns; in every state reached from it a Sell button calls
    \<^verbatim>\<open>sell_item\<close> with its own key and that call does not raise; and no event the window
    can deliver (a key, the next-day button, a Buy or Sell button, a click on a view)
    raises a \<^verbatim>\<open>KeyError\<close> from \<^verbatim>\<open>BUY_PRICES\<close> or \<^verbatim>\<open>SELL_PRICES\<close>, which includes the
    lookups of \<^verbatim>\<open>ItemView.update\<close> in every redraw.
\<close>

theorem price_lookups_in_keys:
  "(name \<notin> dom (BUY_PRICES cfg) \<longrightarrow>
      buy_item cfg name h = Raises (KeyError BUY_PRICES_table name) h)
   \<and> (FarmGame_init cfg m0 = Inr g0 \<and> run_events cfg evs g0 = Some g
        \<and> event_possible g (BuyButton key) \<longrightarrow>
          key \<in> dom (BUY_PRICES cfg)
          \<and> dispatch cfg (BuyButton key) g = buy_item cfg key g
          \<and> raised (buy_item cfg key g) = None)
   \<and> ((\<forall>i \<in> set (ITEMS cfg). i \<in> dom (SELL_PRICES cfg)) \<longrightarrow>
        (\<exists>g1. FarmGame_init cfg m0 = Inr g1)
        \<and> (FarmGame_init cfg m0 = Inr g0 \<and> run_events cfg evs g0 = Some g
             \<and> event_possible g (SellButton key) \<longrightarrow>
               dispatch cfg (SellButton key) g = sell_item cfg key g
               \<and> raised (sell_item cfg key g) = None)
        \<and> (FarmGame_init cfg m0 = Inr g0 \<and> run_events cfg evs g0 = Some g
             \<and> event_possible g ev \<longrightarrow>
               \<not> price_key_error (raised (dispatch cfg ev g))))"
proof -
  have w: "wired cfg g" if "FarmGame_init cfg m0 = Inr g0" "run_events cfg evs g0 = Some g"
    using that by (rule reachable_wired)
  have 1: "name \<notin> dom (BUY_PRICES cfg) \<longrightarrow>
      buy_item cfg name h = Raises (KeyError BUY_PRICES_table name) h"
    using buy_item_unguarded [of name cfg h] by blast
  have 2: "FarmGame_init cfg m0 = Inr g0 \<and> run_events cfg evs g0 = Some g
        \<and> event_possible g (BuyButton key) \<longrightarrow>
          key \<in> dom (BUY_PRICES cfg)
          \<and> dispatch cfg (BuyButton key) g = buy_item cfg key g
          \<and> raised (buy_item cfg key g) = None"
    using w buy_button_wired [of cfg g key] by blast
  have 3: "\<exists>g1. FarmGame_init cfg m0 = Inr g1"
    if "\<forall>i \<in> set (ITEMS cfg). i \<in> dom (SELL_PRICES cfg)"
    using that by (rule FarmGame_init_returns)
  have 4: "FarmGame_init cfg m0 = Inr g0 \<and> run_events cfg evs g0 = Some g
             \<and> event_possible g (SellButton key) \<longrightarrow>
               dispatch cfg (SellButton key) g = sell_item cfg key g
               \<and> raised (sell_item cfg key g) = None"
    using w sell_button_wired [of cfg g key] by blast
  have 5: "FarmGame_init cfg m0 = Inr g0 \<and> run_events cfg evs g0 = Some g
             \<and> event_possible g ev \<longrightarrow>
               \<not> price_key_error (raised (dispatch cfg ev g))"
    using w dispatch_no_price_error [of cfg g ev] by blast
  from 1 2 3 4 5 show ?thesis by blast
qed

theorem price_lookups_in_keys_witness:
  "''Foo'' \<notin> dom (BUY_PRICES sample_config)
   \<and> buy_item sample_config ''Foo'' played_game
       = Raises (KeyError BUY_PRICES_table ''Foo'') played_game
   \<and> set (ITEMS sample_config) \<subseteq> dom (SELL_PRICES sample_config)
   \<and> FarmGame_init sample_config sample_model = Inr sample_game
   \<and> run_events sample_config [BuyButton ''Potato Seed'', KeyPress ''p''] sample_game
       = Some played_game
   \<and> event_possible played_game (BuyButton ''Kale Seed'')
   \<and> ''Kale Seed'' \<in> dom (BUY_PRICES sample_config)
   \<and> raised (buy_item sample_config ''Kale Seed'' played_game) = None
   \<and> event_possible played_game (SellButton ''Potato'')
   \<and> raised (sell_item sample_config ''Potato'' played_game) = None
   \<and> \<not> event_possible played_game (BuyButton ''Potato'')
   \<and> \<not> price_key_error (raised (dispatch sample_config (LeftClick ''Berry'') played_game))"
proof -
  have a: "''Foo'' \<notin> dom (BUY_PRICES sample_config)"
    by (simp add: sample_config_def)
  have c: "\<forall>i \<in> set (ITEMS sample_config). i \<in> dom (SELL_PRICES sample_config)"
    by (simp add: sample_config_def)
  have e1: "event_possible sample_game (BuyButton ''Potato Seed'')" by code_simp
  have e: "event_possible played_game (BuyButton ''Kale Seed'')"
    "event_possible played_game (SellButton ''Potato'')"
    "\<not> event_possible played_game (BuyButton ''Potato'')"
    "event_possible played_game (LeftClick ''Berry'')"
    by code_simp+
  have r: "run_events sample_config [BuyButton ''Potato Seed'', KeyPress ''p''] sample_game
       = Some played_game"
    using e1 by (simp add: played_game_def)
  note t = price_lookups_in_keys [where cfg = sample_config and ?m0.0 = sample_model
      and ?g0.0 = sample_game and g = played_game and h = played_game and name = "''Foo''"
      and evs = "[BuyButton ''Potato Seed'', KeyPress ''p'']"]
  from t c obtain g1 where g1: "FarmGame_init sample_config sample_model = Inr g1" by blast
  then have i: "FarmGame_init sample_config sample_model = Inr sample_game"
    by (simp add: sample_game_def)
  from c have s: "set (ITEMS sample_config) \<subseteq> dom (SELL_PRICES sample_config)"
    by blast
  from t [where key = "''Kale Seed''" and ev = "LeftClick ''Berry''"]
       t [where key = "''Potato''" and ev = "LeftClick ''Berry''"] a c s i r e
  show ?thesis by blast
qed

subsection \<open>Selecting an item\<close>

text \<open>
  The selection is set whenever the view of the previous selection can be updated;
  when the previous selection has no view the method raises before selecting.
\<close>

lemma select_new_selects:
  "selected_item (player (model (state_of (select_new cfg name g)))) = Some name"
  by (simp add: select_new_def Let_def model_issue Player_select_item_def view_update_frame
           split: option.splits)

lemma unselect_previous_returns:
  assumes "selected_item (player (model g)) = None
           \<or> (\<exists>sel v. selected_item (player (model g)) = Some sel
                \<and> item_dict g sel = Some v \<and> item_name v \<in> dom (SELL_PRICES cfg))"
  shows "\<exists>g1. unselect_previous cfg g = Returns g1"
proof (cases "selected_item (player (model g))")
  case None
  then show ?thesis by (simp add: unselect_previous_def)
next
  case (Some sel)
  with assms obtain v where v: "item_dict g sel = Some v" "item_name v \<in> dom (SELL_PRICES cfg)"
    by auto
  show ?thesis
  proof (cases "inventory (player (model g)) sel")
    case None
    with Some view_update_present [OF v, of 0 False] show ?thesis
      by (simp add: unselect_previous_def)
  next
    case (Some amount)
    with \<open>selected_item (player (model g)) = Some sel\<close>
         view_update_present [OF v, of "int amount" False] show ?thesis
      by (simp add: unselect_previous_def)
  qed
qed

lemma select_item_sets_selection:
  assumes "selected_item (player (model g)) = None
           \<or> (\<exists>sel v. selected_item (player (model g)) = Some sel
                \<and> item_dict g sel = Some v \<and> item_name v \<in> dom (SELL_PRICES cfg))"
  shows "selected_item (player (model (state_of (FarmGame_select_item cfg name g)))) = Some name"
proof -
  from unselect_previous_returns [OF assms] obtain g1
    where "unselect_previous cfg g = Returns g1" by blast
  then show ?thesis by (simp add: FarmGame_select_item_def select_new_selects)
qed

lemma select_item_previous_without_view:
  assumes "selected_item (player (model g)) = Some sel" and "item_dict g sel = None"
  shows "FarmGame_select_item cfg name g = Raises (KeyError item_dict_table sel) g"
  using assms
  by (simp add: FarmGame_select_item_def unselect_previous_def view_update_def
           split: option.splits)


subsection \<open>The day advance\<close>

lemma new_day_fields:
  "days_elapsed (new_day cfg m) = days_elapsed m + 1
   \<and> energy (player (new_day cfg m)) = max_energy cfg
   \<and> grid (new_day cfg m) = grid m
   \<and> dom (plants (new_day cfg m)) = dom (plants m)"
  by (auto simp: new_day_def dom_def)

lemma new_day_plant:
  "plants m pos = Some pl \<Longrightarrow>
     plants (new_day cfg m) pos
       = Some (pl\<lparr> stage := min (stage pl + 1) (plant_max_stage cfg pl) \<rparr>)"
  by (simp add: new_day_def grow_def)

lemma apply_op_energy:
  "op \<noteq> NewDay \<Longrightarrow> energy (player (apply_op cfg op m)) \<le> energy (player m)"
proof (cases op)
  case (MovePlayer d)
  then show ?thesis by (simp add: move_player_def Player_move_def Let_def split: prod.splits)
next
  case (TillSoil pos)
  then show ?thesis
    by (simp add: till_soil_def split: sum.splits prod.splits)
next
  case (UntillSoil pos)
  then show ?thesis
    by (simp add: untill_soil_def split: sum.splits prod.splits)
next
  case (AddPlant pos pl)
  then show ?thesis by (simp add: add_plant_def)
next
  case (RemovePlant pos)
  then show ?thesis by (simp add: remove_plant_def split: option.splits)
next
  case (HarvestPlant pos)
  then show ?thesis by (simp add: harvest_plant_def split: option.splits prod.splits)
next
  case (Buy item price)
  then show ?thesis by (simp add: Player_buy_def)
next
  case (Sell item price)
  then show ?thesis by (simp add: Player_sell_def)
next
  case (SelectItem name)
  then show ?thesis by (simp add: Player_select_item_def)
next
  case (AddItem item qty)
  then show ?thesis by (simp add: Player_add_item_def)
next
  case (RemoveItem item qty)
  then show ?thesis by (simp add: Player_remove_item_def split: prod.splits)
qed simp

lemma apply_op_days:
  "op \<noteq> NewDay \<Longrightarrow> days_elapsed (apply_op cfg op m) = days_elapsed m"
  by (cases op)
     (simp_all add: move_player_def till_soil_def untill_soil_def add_plant_def
        remove_plant_def harvest_plant_def split: sum.splits prod.splits option.splits)

lemma harvest_plant_persisting:
  assumes "plants m pos = Some pl" and "plants (snd (harvest_plant cfg pos' m)) pos = Some pl'"
  shows "pl' = pl
         \<or> (\<exists>r. pos' = pos \<and> stage pl = plant_max_stage cfg pl
                \<and> regrow_stage (variant_table cfg (plant_variant pl)) = Some r
                \<and> pl' = pl\<lparr> stage := r \<rparr>)"
proof (cases "pos' = pos")
  case False
  with assms show ?thesis
    by (auto simp: harvest_plant_def split: option.splits prod.splits)
next
  case True
  show ?thesis
  proof (cases "harvest cfg pl")
    case None
    with assms True show ?thesis by (simp add: harvest_plant_def)
  next
    case (Some yr)
    obtain y rest where yr: "yr = (y, rest)" by (cases yr)
    from Some yr have h: "is_harvestable cfg pl"
      and rest: "rest = (case regrow_stage (variant_table cfg (plant_variant pl)) of
                   None \<Rightarrow> None | Some r \<Rightarrow> Some (pl\<lparr> stage := r \<rparr>))"
      by (auto simp: harvest_def Let_def split: if_splits)
    from assms True Some yr have "rest = Some pl'" by (simp add: harvest_plant_def)
    with rest h True show ?thesis
      by (auto simp: is_harvestable_def split: option.splits)
  qed
qed

lemma apply_op_persisting:
  assumes "op \<noteq> NewDay" and "plants m pos = Some pl"
    and "plants (apply_op cfg op m) pos = Some pl'"
  shows "pl' = pl
         \<or> (\<exists>r. op = HarvestPlant pos \<and> stage pl = plant_max_stage cfg pl
                \<and> regrow_stage (variant_table cfg (plant_variant pl)) = Some r
                \<and> pl' = pl\<lparr> stage := r \<rparr>)"
proof (cases op)
  case (MovePlayer d)
  with assms show ?thesis by (simp add: move_player_def split: prod.splits)
next
  case (TillSoil p)
  with assms show ?thesis
    by (simp add: till_soil_def split: sum.splits prod.splits if_splits)
next
  case (UntillSoil p)
  with assms show ?thesis
    by (simp add: untill_soil_def split: sum.splits prod.splits if_splits)
next
  case (AddPlant p pl0)
  with assms show ?thesis by (simp add: add_plant_def split: if_splits)
next
  case (RemovePlant p)
  with assms show ?thesis by (simp add: remove_plant_def split: option.splits if_splits)
next
  case (HarvestPlant p)
  with assms harvest_plant_persisting [of m pos pl cfg p pl'] show ?thesis by auto
next
  case NewDay
  with assms show ?thesis by simp
qed (use assms in simp_all)

text \<open>
  Claim C3. For every model state, \<^verbatim>\<open>new_day()\<close> increments \<^verbatim>\<open>days_elapsed\<close> by exactly 1,
  sets the player's energy to \<^verbatim>\<open>max_energy\<close> whatever it was, keeps the positions that
  hold a plant, and takes the stage of every plant to \<^verbatim>\<open>min(stage + 1, max_stage)\<close>. Every
  other operation of the model leaves \<^verbatim>\<open>days_elapsed\<close> as it was and does not raise the
  energy; a plant that is at its position before and after such an operation is unchanged,
  except that \<^verbatim>\<open>harvest_plant\<close> at that position puts a ripe multi-harvest plant back to
  its regrowth stage; so its stage does not go up when no regrowth stage of the
  configuration is above the variant's last stage.
\<close>

theorem new_day_sole_growth:
  "days_elapsed (new_day cfg m) = days_elapsed m + 1
   \<and> energy (player (new_day cfg m)) = max_energy cfg
   \<and> dom (plants (new_day cfg m)) = dom (plants m)
   \<and> (plants m pos = Some pl \<longrightarrow>
        plants (new_day cfg m) pos
          = Some (pl\<lparr> stage := min (stage pl + 1) (plant_max_stage cfg pl) \<rparr>))
   \<and> (op \<noteq> NewDay \<longrightarrow>
        energy (player (apply_op cfg op m)) \<le> energy (player m)
        \<and> days_elapsed (apply_op cfg op m) = days_elapsed m)
   \<and> (op \<noteq> NewDay \<and> plants m pos = Some pl \<and> plants (apply_op cfg op m) pos = Some pl' \<longrightarrow>
        pl' = pl
        \<or> (\<exists>r. op = HarvestPlant pos \<and> stage pl = plant_max_stage cfg pl
               \<and> regrow_stage (variant_table cfg (plant_variant pl)) = Some r
               \<and> pl' = pl\<lparr> stage := r \<rparr>))
   \<and> (op \<noteq> NewDay \<and> plants m pos = Some pl \<and> plants (apply_op cfg op m) pos = Some pl'
        \<and> (\<forall>v r. regrow_stage (variant_table cfg v) = Some r \<longrightarrow> r \<le> max_stage (variant_table cfg v))
        \<longrightarrow> stage pl' \<le> stage pl)"
proof -
  have 1: "plants m pos = Some pl \<longrightarrow>
        plants (new_day cfg m) pos
          = Some (pl\<lparr> stage := min (stage pl + 1) (plant_max_stage cfg pl) \<rparr>)"
    using new_day_plant [of m pos pl cfg] by blast
  have 2: "op \<noteq> NewDay \<longrightarrow>
        energy (player (apply_op cfg op m)) \<le> energy (player m)
        \<and> days_elapsed (apply_op cfg op m) = days_elapsed m"
    using apply_op_energy [of op cfg m] apply_op_days [of op cfg m] by blast
  have 3: "op \<noteq> NewDay \<and> plants m pos = Some pl \<and> plants (apply_op cfg op m) pos = Some pl' \<longrightarrow>
        pl' = pl
        \<or> (\<exists>r. op = HarvestPlant pos \<and> stage pl = plant_max_stage cfg pl
               \<and> regrow_stage (variant_table cfg (plant_variant pl)) = Some r
               \<and> pl' = pl\<lparr> stage := r \<rparr>)"
    using apply_op_persisting [of op m pos pl cfg pl'] by blast
  have 4: "stage pl' \<le> stage pl"
    if "op \<noteq> NewDay" "plants m pos = Some pl" "plants (apply_op cfg op m) pos = Some pl'"
       "\<forall>v r. regrow_stage (variant_table cfg v) = Some r \<longrightarrow> r \<le> max_stage (variant_table cfg v)"
  proof -
    from that(1-3) 3 consider "pl' = pl"
      | r where "stage pl = plant_max_stage cfg pl"
          "regrow_stage (variant_table cfg (plant_variant pl)) = Some r" "pl' = pl\<lparr> stage := r \<rparr>"
      by blast
    then show ?thesis
    proof cases
      case 1
      then show ?thesis by simp
    next
      case 2
      with that(4) show ?thesis by (simp add: plant_max_stage_def)
    qed
  qed
  from new_day_fields [of cfg m] 1 2 3 4 show ?thesis by blast
qed

theorem new_day_sole_growth_witness:
  "energy (player tired_model) = 98 \<and> days_elapsed tired_model = 1
   \<and> plants tired_model (0, 0) = Some \<lparr> plant_variant = Potato, stage = 0 \<rparr>
   \<and> days_elapsed (new_day sample_config tired_model) = 2
   \<and> energy (player (new_day sample_config tired_model)) = 100
   \<and> plants (new_day sample_config tired_model) (0, 0)
       = Some \<lparr> plant_variant = Potato, stage = 1 \<rparr>
   \<and> plants grown_model (0, 0) = Some \<lparr> plant_variant = Potato, stage = 5 \<rparr>
   \<and> plants (new_day sample_config grown_model) (0, 0)
       = Some \<lparr> plant_variant = Potato, stage = 5 \<rparr>
   \<and> MovePlayer DOWN \<noteq> NewDay
   \<and> energy (player (apply_op sample_config (MovePlayer DOWN) tired_model)) \<le> 98
   \<and> HarvestPlant (0, 2) \<noteq> NewDay
   \<and> plants grown_model (0, 2) = Some \<lparr> plant_variant = Berry, stage = 6 \<rparr>
   \<and> plants (apply_op sample_config (HarvestPlant (0, 2)) grown_model) (0, 2)
       = Some \<lparr> plant_variant = Berry, stage = 3 \<rparr>
   \<and> stage \<lparr> plant_variant = Berry, stage = 3 \<rparr> \<le> stage \<lparr> plant_variant = Berry, stage = 6 \<rparr>"
proof -
  have e: "energy (player tired_model) = 98" "days_elapsed tired_model = 1"
    "plants tired_model (0, 0) = Some \<lparr> plant_variant = Potato, stage = 0 \<rparr>"
    "plants grown_model (0, 0) = Some \<lparr> plant_variant = Potato, stage = 5 \<rparr>"
    "plants grown_model (0, 2) = Some \<lparr> plant_variant = Berry, stage = 6 \<rparr>"
    "plants (apply_op sample_config (HarvestPlant (0, 2)) grown_model) (0, 2)
       = Some \<lparr> plant_variant = Berry, stage = 3 \<rparr>"
    by code_simp+
  have c: "max_energy sample_config = 100"
    "plant_max_stage sample_config \<lparr> plant_variant = Potato, stage = 0 \<rparr> = 5"
    "plant_max_stage sample_config \<lparr> plant_variant = Potato, stage = 5 \<rparr> = 5"
    by code_simp+
  have r: "\<forall>v r. regrow_stage (variant_table sample_config v) = Some r
             \<longrightarrow> r \<le> max_stage (variant_table sample_config v)"
  proof (intro allI impI)
    fix v r
    assume "regrow_stage (variant_table sample_config v) = Some r"
    then show "r \<le> max_stage (variant_table sample_config v)"
      by (cases v) (simp_all add: sample_config_def sample_variant_table_def)
  qed
  from new_day_sole_growth [where cfg = sample_config and m = tired_model and pos = "(0, 0)"
         and pl = "\<lparr> plant_variant = Potato, stage = 0 \<rparr>" and op = "MovePlayer DOWN"]
       e c
  have a: "days_elapsed (new_day sample_config tired_model) = 2"
    "energy (player (new_day sample_config tired_model)) = 100"
    "plants (new_day sample_config tired_model) (0, 0)
       = Some \<lparr> plant_variant = Potato, stage = 1 \<rparr>"
    "energy (player (apply_op sample_config (MovePlayer DOWN) tired_model)) \<le> 98"
    by simp_all
  from new_day_sole_growth [where cfg = sample_config and m = grown_model and pos = "(0, 0)"
         and pl = "\<lparr> plant_variant = Potato, stage = 5 \<rparr>" and op = "MovePlayer DOWN"]
       e c
  have b: "plants (new_day sample_config grown_model) (0, 0)
       = Some \<lparr> plant_variant = Potato, stage = 5 \<rparr>"
    by simp
  from new_day_sole_growth [where cfg = sample_config and m = grown_model and pos = "(0, 2)"
         and pl = "\<lparr> plant_variant = Berry, stage = 6 \<rparr>" and op = "HarvestPlant (0, 2)"
         and pl' = "\<lparr> plant_variant = Berry, stage = 3 \<rparr>"]
       e r
  have d: "stage \<lparr> plant_variant = Berry, stage = 3 \<rparr> \<le> stage \<lparr> plant_variant = Berry, stage = 6 \<rparr>"
    by blast
  from e a b d show ?thesis by simp
qed

subsection \<open>Plants stand on tilled soil\<close>

lemma in_bounds_set_tile:
  "in_bounds (set_tile g pos t) pos' = in_bounds g pos'"
proof (cases "nat (fst pos') < length g")
  case False
  then show ?thesis by (auto simp: in_bounds_def set_tile_def)
next
  case True
  then have "length ((set_tile g pos t) ! nat (fst pos')) = length (g ! nat (fst pos'))"
    by (cases "nat (fst pos) = nat (fst pos')") (simp_all add: set_tile_def)
  then show ?thesis by (simp add: in_bounds_def set_tile_def)
qed

lemma tile_at_set_tile_same:
  assumes "in_bounds g pos"
  shows "tile_at (set_tile g pos t) pos = Inr t"
proof -
  from assms have "in_bounds (set_tile g pos t) pos" by (simp add: in_bounds_set_tile)
  moreover from assms have "nat (fst pos) < length g"
    and "nat (snd pos) < length (g ! nat (fst pos))"
    by (auto simp: in_bounds_def)
  then have "set_tile g pos t ! nat (fst pos) ! nat (snd pos) = t"
    by (simp add: set_tile_def)
  ultimately show ?thesis by (simp add: tile_at_def)
qed

lemma tile_at_set_tile_other:
  assumes "in_bounds g pos" and "pos' \<noteq> pos"
  shows "tile_at (set_tile g pos t) pos' = tile_at g pos'"
proof (cases "in_bounds g pos'")
  case False
  then show ?thesis by (simp add: tile_at_def in_bounds_set_tile)
next
  case True
  then have b: "0 \<le> fst pos'" "0 \<le> snd pos'" "nat (fst pos') < length g"
    by (auto simp: in_bounds_def)
  from assms(1) have c: "0 \<le> fst pos" "0 \<le> snd pos" by (auto simp: in_bounds_def)
  have "set_tile g pos t ! nat (fst pos') ! nat (snd pos') = g ! nat (fst pos') ! nat (snd pos')"
  proof (cases "nat (fst pos) = nat (fst pos')")
    case False
    then show ?thesis by (simp add: set_tile_def)
  next
    case same: True
    with b c assms(2) have "nat (snd pos) \<noteq> nat (snd pos')"
      by (auto simp: prod_eq_iff)
    with same b show ?thesis by (simp add: set_tile_def)
  qed
  with True show ?thesis by (simp add: tile_at_def in_bounds_set_tile)
qed

lemma tile_at_in_bounds: "tile_at g pos = Inr t \<Longrightarrow> in_bounds g pos"
  by (simp add: tile_at_def split: if_splits)

lemma Grid_till_success:
  assumes "Grid_till g pos = Inr (True, g')"
  shows "in_bounds g pos \<and> g' = set_tile g pos TilledSoil"
  using assms by (auto simp: Grid_till_def split: sum.splits if_splits dest: tile_at_in_bounds)

lemma Grid_untill_success:
  assumes "Grid_untill g pos = Inr (True, g')"
  shows "in_bounds g pos \<and> g' = set_tile g pos Soil"
  using assms by (auto simp: Grid_untill_def split: sum.splits if_splits dest: tile_at_in_bounds)

lemma plants_on_tilledI:
  assumes "\<And>p pl. plants m p = Some pl \<Longrightarrow> tile_at (grid m) p = Inr TilledSoil"
  shows "plants_on_tilled m"
  using assms by (auto simp: plants_on_tilled_def)

lemma plants_on_tilledD:
  assumes "plants_on_tilled m" and "plants m p = Some pl"
  shows "tile_at (grid m) p = Inr TilledSoil"
  using assms unfolding plants_on_tilled_def by blast

lemma plants_on_tilled_sub:
  assumes "plants_on_tilled m" and "grid m' = grid m"
    and "\<And>p. plants m' p \<noteq> None \<Longrightarrow> plants m p \<noteq> None"
  shows "plants_on_tilled m'"
  using assms unfolding plants_on_tilled_def by metis

lemma till_soil_cases:
  "snd (till_soil cfg pos m) = m
   \<or> (fst (till_soil cfg pos m) \<and> in_bounds (grid m) pos
       \<and> grid (snd (till_soil cfg pos m)) = set_tile (grid m) pos TilledSoil
       \<and> plants (snd (till_soil cfg pos m)) = plants m)"
proof (cases "Grid_till (grid m) pos")
  case (Inl e)
  then show ?thesis by (simp add: till_soil_def)
next
  case (Inr r)
  obtain ok g' where r: "r = (ok, g')" by (cases r)
  show ?thesis
  proof (cases ok)
    case False
    with Inr r show ?thesis by (simp add: till_soil_def)
  next
    case True
    with Inr r Grid_till_success [of "grid m" pos g'] show ?thesis
      by (simp add: till_soil_def)
  qed
qed

lemma untill_soil_cases:
  "(\<not> fst (untill_soil cfg pos m) \<and> snd (untill_soil cfg pos m) = m)
   \<or> (fst (untill_soil cfg pos m) \<and> in_bounds (grid m) pos
       \<and> grid (snd (untill_soil cfg pos m)) = set_tile (grid m) pos Soil
       \<and> plants (snd (untill_soil cfg pos m)) = (plants m)(pos := None))"
proof (cases "Grid_untill (grid m) pos")
  case (Inl e)
  then show ?thesis by (simp add: untill_soil_def)
next
  case (Inr r)
  obtain ok g' where r: "r = (ok, g')" by (cases r)
  show ?thesis
  proof (cases ok)
    case False
    with Inr r show ?thesis by (simp add: untill_soil_def)
  next
    case True
    with Inr r Grid_untill_success [of "grid m" pos g'] show ?thesis
      by (simp add: untill_soil_def)
  qed
qed

lemma till_soil_inv:
  assumes "plants_on_tilled m"
  shows "plants_on_tilled (snd (till_soil cfg pos m))"
proof -
  from till_soil_cases [of cfg pos m] consider "snd (till_soil cfg pos m) = m"
    | "in_bounds (grid m) pos"
      "grid (snd (till_soil cfg pos m)) = set_tile (grid m) pos TilledSoil"
      "plants (snd (till_soil cfg pos m)) = plants m"
    by blast
  then show ?thesis
  proof cases
    case 1
    with assms show ?thesis by simp
  next
    case 2
    show ?thesis
    proof (rule plants_on_tilledI)
      fix p pl
      assume "plants (snd (till_soil cfg pos m)) p = Some pl"
      with 2 have "plants m p = Some pl" by simp
      with assms have t: "tile_at (grid m) p = Inr TilledSoil" by (rule plants_on_tilledD)
      show "tile_at (grid (snd (till_soil cfg pos m))) p = Inr TilledSoil"
      proof (cases "p = pos")
        case True
        with 2 show ?thesis by (simp add: tile_at_set_tile_same)
      next
        case False
        with 2 t show ?thesis by (simp add: tile_at_set_tile_other)
      qed
    qed
  qed
qed

lemma untill_soil_inv:
  assumes "plants_on_tilled m"
  shows "plants_on_tilled (snd (untill_soil cfg pos m))"
proof -
  from untill_soil_cases [of cfg pos m] consider "snd (untill_soil cfg pos m) = m"
    | "in_bounds (grid m) pos"
      "grid (snd (untill_soil cfg pos m)) = set_tile (grid m) pos Soil"
      "plants (snd (untill_soil cfg pos m)) = (plants m)(pos := None)"
    by blast
  then show ?thesis
  proof cases
    case 1
    with assms show ?thesis by simp
  next
    case 2
    show ?thesis
    proof (rule plants_on_tilledI)
      fix p pl
      assume a: "plants (snd (untill_soil cfg pos m)) p = Some pl"
      with 2 have ne: "p \<noteq> pos" by (auto split: if_splits)
      with a 2 have "plants m p = Some pl" by simp
      with assms have "tile_at (grid m) p = Inr TilledSoil" by (rule plants_on_tilledD)
      with 2 ne show "tile_at (grid (snd (untill_soil cfg pos m))) p = Inr TilledSoil"
        by (simp add: tile_at_set_tile_other)
    qed
  qed
qed

lemma untill_soil_removes_plant:
  assumes "fst (untill_soil cfg pos m)"
  shows "plants (snd (untill_soil cfg pos m)) pos = None
         \<and> tile_at (grid (snd (untill_soil cfg pos m))) pos = Inr Soil
         \<and> tile_at (grid m) pos = Inr TilledSoil"
proof -
  from assms untill_soil_cases [of cfg pos m]
  have c: "in_bounds (grid m) pos"
    "grid (snd (untill_soil cfg pos m)) = set_tile (grid m) pos Soil"
    "plants (snd (untill_soil cfg pos m)) = (plants m)(pos := None)"
    by blast+
  from assms have "tile_at (grid m) pos = Inr TilledSoil"
    by (auto simp: untill_soil_def Grid_untill_def split: if_splits sum.splits)
  with c show ?thesis by (simp add: tile_at_set_tile_same)
qed

lemma add_plant_inv:
  assumes "plants_on_tilled m"
  shows "plants_on_tilled (snd (add_plant pos pl m))"
proof (cases "tile_at (grid m) pos \<noteq> Inr TilledSoil \<or> plants m pos \<noteq> None")
  case True
  with assms show ?thesis by (simp add: add_plant_def)
next
  case False
  then have s: "snd (add_plant pos pl m) = m\<lparr> plants := (plants m)(pos \<mapsto> pl) \<rparr>"
    and t: "tile_at (grid m) pos = Inr TilledSoil"
    by (simp_all add: add_plant_def)
  show ?thesis
  proof (rule plants_on_tilledI)
    fix p q
    assume "plants (snd (add_plant pos pl m)) p = Some q"
    with s have "p = pos \<or> plants m p = Some q" by (auto split: if_splits)
    with t assms s show "tile_at (grid (snd (add_plant pos pl m))) p = Inr TilledSoil"
      by (auto dest: plants_on_tilledD)
  qed
qed

lemma remove_plant_inv:
  assumes "plants_on_tilled m"
  shows "plants_on_tilled (snd (remove_plant pos m))"
  using assms
  by (rule plants_on_tilled_sub) (auto simp: remove_plant_def split: option.splits if_splits)

lemma harvest_plant_inv:
  assumes "plants_on_tilled m"
  shows "plants_on_tilled (snd (harvest_plant cfg pos m))"
  using assms
  by (rule plants_on_tilled_sub)
     (auto simp: harvest_plant_def split: option.splits prod.splits if_splits)

lemma new_day_inv:
  assumes "plants_on_tilled m"
  shows "plants_on_tilled (new_day cfg m)"
  using assms by (rule plants_on_tilled_sub) (auto simp: new_day_def)

lemma move_player_inv:
  assumes "plants_on_tilled m"
  shows "plants_on_tilled (snd (move_player d m))"
  using assms by (rule plants_on_tilled_sub) (auto simp: move_player_def split: prod.splits)

lemma player_update_inv:
  assumes "plants_on_tilled m"
  shows "plants_on_tilled (m\<lparr> player := p \<rparr>)"
  using assms by (rule plants_on_tilled_sub) simp_all

lemma apply_op_inv:
  assumes "plants_on_tilled m"
  shows "plants_on_tilled (apply_op cfg op m)"
  using assms
  by (cases op)
     (simp_all add: move_player_inv till_soil_inv untill_soil_inv add_plant_inv
        remove_plant_inv harvest_plant_inv new_day_inv player_update_inv)

lemma run_ops_inv:
  "plants_on_tilled m \<Longrightarrow> plants_on_tilled (run_ops cfg ops m)"
  by (induction ops arbitrary: m) (simp_all add: apply_op_inv)

lemma FarmModel_init_inv: "plants_on_tilled (FarmModel_init cfg g ivt)"
  by (simp add: plants_on_tilled_def FarmModel_init_def)

text \<open>
  Claim C5. In every state reached from a fresh model by any sequence of \<^verbatim>\<open>FarmModel\<close>
  operations, every key of \<^verbatim>\<open>plants\<close> is a position whose tile is TilledSoil; every
  operation preserves this invariant; and a successful \<^verbatim>\<open>untill_soil\<close> leaves no plant at
  its position, whose tile is then Soil.
\<close>

theorem plants_on_tilled_invariant:
  "plants_on_tilled (run_ops cfg ops (FarmModel_init cfg g ivt))
   \<and> (plants_on_tilled m \<longrightarrow> plants_on_tilled (apply_op cfg op m))
   \<and> (fst (untill_soil cfg pos m) \<longrightarrow>
        plants (snd (untill_soil cfg pos m)) pos = None
        \<and> tile_at (grid (snd (untill_soil cfg pos m))) pos = Inr Soil)"
proof -
  have 1: "plants_on_tilled (run_ops cfg ops (FarmModel_init cfg g ivt))"
    using FarmModel_init_inv by (rule run_ops_inv)
  have 2: "plants_on_tilled m \<longrightarrow> plants_on_tilled (apply_op cfg op m)"
    using apply_op_inv [of m cfg op] by blast
  have 3: "fst (untill_soil cfg pos m) \<longrightarrow>
        plants (snd (untill_soil cfg pos m)) pos = None
        \<and> tile_at (grid (snd (untill_soil cfg pos m))) pos = Inr Soil"
    using untill_soil_removes_plant [of cfg pos m] by blast
  from 1 2 3 show ?thesis by blast
qed

theorem plants_on_tilled_invariant_witness:
  "plants_on_tilled tilled_model
   \<and> plants tilled_model (0, 1) = Some \<lparr> plant_variant = Kale, stage = 1 \<rparr>
   \<and> tile_at (grid tilled_model) (0, 1) = Inr TilledSoil
   \<and> fst (untill_soil sample_config (0, 1) tilled_model)
   \<and> plants (snd (untill_soil sample_config (0, 1) tilled_model)) (0, 1) = None
   \<and> tile_at (grid (snd (untill_soil sample_config (0, 1) tilled_model))) (0, 1) = Inr Soil
   \<and> plants_on_tilled (apply_op sample_config (UntillSoil (0, 1)) tilled_model)"
proof -
  note t = plants_on_tilled_invariant [where cfg = sample_config and g = sample_grid
      and ivt = Map.empty and ops = "[TillSoil (0, 1), AddPlant (0, 1) KalePlant, NewDay]"
      and m = tilled_model and op = "UntillSoil (0, 1)" and pos = "(0, 1)"]
  have e: "plants tilled_model (0, 1) = Some \<lparr> plant_variant = Kale, stage = 1 \<rparr>"
    "tile_at (grid tilled_model) (0, 1) = Inr TilledSoil"
    "fst (untill_soil sample_config (0, 1) tilled_model)"
    by code_simp+
  from t have i: "plants_on_tilled tilled_model" by (simp add: tilled_model_def)
  from t e i show ?thesis by blast
qed

end
